theory Spec2Isabelle
  imports Complex_Main "HOL-Library.Multiset"
begin

section \<open>Values exchanged with the geometry kernel\<close>

text \<open>
  The kernel is an external library.  Its builders are kept symbolic: a builder object is
  the term of the call that made it, with the arguments exactly as the engine passed them.
  A Python value stored in a \<open>shape\<close> attribute is \<open>None\<close>, a raw kernel shape
  (which has no \<open>Shape\<close> attribute) or a builder object (which has one).
\<close>

datatype kind = Common | Cut | Fuse

datatype edge = Edge nat

datatype face = Face nat

datatype offset_mode = BRepOffset_Skin | BRepOffset_Pipe | BRepOffset_RectoVerso

datatype join_type = GeomAbs_Arc | GeomAbs_Tangent | GeomAbs_Intersection

datatype val =
    PyNone
  | TopoDS nat
  | ShapeOf val
  | Builder nat
  | BRepAlgoAPI kind val val "nat option"
  | BRepFilletAPI_MakeFillet val "(real \<times> edge) list"
  | BRepFilletAPI_MakeChamfer val "(real list \<times> edge \<times> face) list"
  | BRepOffsetAPI_MakeThickSolid val "face list" real real offset_mode bool bool join_type

text \<open>Python truthiness of such a value: only \<open>None\<close> is false.\<close>

fun truthy :: "val \<Rightarrow> bool" where
  "truthy PyNone = False"
| "truthy _ = True"

text \<open>\<open>hasattr(v, 'Shape')\<close>: builder objects have the method, raw shapes and \<open>None\<close> do not.\<close>

fun hasattr_Shape :: "val \<Rightarrow> bool" where
  "hasattr_Shape PyNone = False"
| "hasattr_Shape (TopoDS _) = False"
| "hasattr_Shape (ShapeOf _) = False"
| "hasattr_Shape _ = True"

text \<open>The recurring expression \<open>v.Shape() if hasattr(v, 'Shape') else v\<close>.\<close>

definition Shape_or_self :: "val \<Rightarrow> val" where
  "Shape_or_self v = (if hasattr_Shape v then ShapeOf v else v)"

section \<open>Proxies\<close>

text \<open>
  A shape proxy holds its current \<open>shape\<close>; \<open>topology.edges()\<close> and
  \<open>topology.faces()\<close> of the proxy are given with it.  An operation proxy adds its
  declaration and its children.
\<close>

record occ_shape =
  shape :: val
  topology_edges :: "edge list"
  topology_faces :: "face list"

record 'd occ_operation = occ_shape +
  decl :: 'd
  children :: "occ_shape list"

section \<open>Boolean operations\<close>

record boolean_declaration =
  shape1 :: val
  shape2 :: val
  pave_filler :: "nat option"

record occ_boolean_operation = "boolean_declaration occ_operation" +
  kind :: kind

text \<open>
  \<open>OccCommon._do_operation\<close>, \<open>OccCut._do_operation\<close> and \<open>OccFuse._do_operation\<close>
  differ only in the kernel class they call; the pave filler is appended to the arguments
  when it is declared.
\<close>

definition do_operation :: "occ_boolean_operation \<Rightarrow> val \<Rightarrow> val \<Rightarrow> val" where
  "do_operation self a b = BRepAlgoAPI (kind self) a b (pave_filler (decl self))"

definition create_shape :: "occ_boolean_operation \<Rightarrow> occ_boolean_operation" where
  "create_shape self =
     (let d = decl self in
      if truthy (shape1 d) \<and> truthy (shape2 d)
      then self\<lparr>shape := do_operation self (shape1 d) (shape2 d)\<rparr>
      else self\<lparr>shape := PyNone\<rparr>)"

text \<open>The body of the loop over the children in \<open>OccBooleanOperation.update_shape\<close>.\<close>

definition boolean_step :: "occ_boolean_operation \<Rightarrow> occ_shape \<Rightarrow> occ_boolean_operation" where
  "boolean_step self c =
     (let s = shape self in
      if truthy s
      then self\<lparr>shape := do_operation self (Shape_or_self s) (Shape_or_self (shape c))\<rparr>
      else self\<lparr>shape := shape c\<rparr>)"

fun boolean_loop :: "occ_boolean_operation \<Rightarrow> occ_shape list \<Rightarrow> occ_boolean_operation" where
  "boolean_loop self [] = self"
| "boolean_loop self (c # cs) = boolean_loop (boolean_step self c) cs"

definition update_shape :: "occ_boolean_operation \<Rightarrow> occ_boolean_operation" where
  "update_shape self = boolean_loop (create_shape self) (children self)"

text \<open>
  The binary kernel operation of a node as the reduction applies it: the accumulated
  builder's \<open>Shape()\<close> on the left, the child's shape on the right.
\<close>

definition kernel_op :: "occ_boolean_operation \<Rightarrow> val \<Rightarrow> val \<Rightarrow> val" where
  "kernel_op self acc c = do_operation self (Shape_or_self acc) (Shape_or_self c)"

text \<open>
  Modelled from the spec: what the kernel's boolean operations denote, the kernel being
  external.  The common, the cut and the fuse of two solids are the intersection, the
  difference and the union of their sets of points; the pave filler refines the
  computation and not its meaning; \<open>Shape()\<close> of a builder is the solid it built.
  Every other value is a leaf whose points are given.
\<close>

fun combine :: "kind \<Rightarrow> 'a set \<Rightarrow> 'a set \<Rightarrow> 'a set" where
  "combine Common a b = a \<inter> b"
| "combine Cut a b = a - b"
| "combine Fuse a b = a \<union> b"

fun solid :: "(val \<Rightarrow> 'a set) \<Rightarrow> val \<Rightarrow> 'a set" where
  "solid points (BRepAlgoAPI k a b pf) = combine k (solid points a) (solid points b)"
| "solid points (ShapeOf v) = solid points v"
| "solid points v = points v"

text \<open>Four leaves on a line of cells, for the concrete cut below.\<close>

definition cells :: "val \<Rightarrow> nat set" where
  "cells v =
     (if v = TopoDS 1 then {0, 1, 2, 3, 4, 5}
      else if v = TopoDS 2 then {0}
      else if v = TopoDS 3 then {1, 2}
      else if v = Builder 4 then {2, 3}
      else {})"

text \<open>Two concrete nodes: a cut whose first operand is not declared, with one child;
  and a cut of two operands with two children.\<close>

definition unconfigured_cut :: occ_boolean_operation where
  "unconfigured_cut =
     \<lparr>shape = PyNone, topology_edges = [], topology_faces = [],
      decl = \<lparr>shape1 = PyNone, shape2 = TopoDS 2, pave_filler = None\<rparr>,
      children = [\<lparr>shape = TopoDS 3, topology_edges = [], topology_faces = []\<rparr>],
      kind = Cut\<rparr>"

definition cut_A_B_C_D :: occ_boolean_operation where
  "cut_A_B_C_D =
     \<lparr>shape = PyNone, topology_edges = [], topology_faces = [],
      decl = \<lparr>shape1 = TopoDS 1, shape2 = TopoDS 2, pave_filler = None\<rparr>,
      children = [\<lparr>shape = TopoDS 3, topology_edges = [], topology_faces = []\<rparr>,
                  \<lparr>shape = Builder 4, topology_edges = [], topology_faces = []\<rparr>],
      kind = Cut\<rparr>"


section \<open>Errors, outcomes and the record of kernel calls\<close>

text \<open>
  An exception is a value.  A rebuild returns its outcome, the proxy as it leaves it and
  the kernel calls it has issued, appended to those issued before: the construction of
  a builder and each \<open>Add\<close> on one.
\<close>

datatype error =
    ValueError string
  | AttributeError string
  | TypeError string
  | Standard_ConstructionError

datatype outcome = Returned | Raised error

datatype kcall =
    Construct val
  | Add_fillet real edge
  | Add_chamfer "real list" edge face

text \<open>The edge/face pairs submitted to a chamfer builder, read off the kernel calls.\<close>

fun submitted_pairs :: "kcall list \<Rightarrow> (edge \<times> face) list" where
  "submitted_pairs [] = []"
| "submitted_pairs (Add_chamfer args e f # ks) = (e, f) # submitted_pairs ks"
| "submitted_pairs (_ # ks) = submitted_pairs ks"

text \<open>\<open>get_shape\<close> of OccChamfer and OccOffset: the first child, or \<open>None\<close>.\<close>

definition get_shape :: "'d occ_operation \<Rightarrow> occ_shape option" where
  "get_shape self = (case children self of [] \<Rightarrow> None | child # _ \<Rightarrow> Some child)"

section \<open>Fillet\<close>

record edges_declaration =
  edges :: "edge list"

record fillet_declaration = edges_declaration +
  radius :: real

text \<open>The loop \<open>for edge in edges: shape.Add(d.radius, edge)\<close> on the builder's state.\<close>

fun fillet_loop :: "real \<Rightarrow> edge list \<Rightarrow> (real \<times> edge) list \<times> kcall list
    \<Rightarrow> (real \<times> edge) list \<times> kcall list" where
  "fillet_loop r [] acc = acc"
| "fillet_loop r (e # es) (added, calls) =
     fillet_loop r es (added @ [(r, e)], calls @ [Add_fillet r e])"

definition fillet_update_shape :: "fillet_declaration occ_operation \<Rightarrow> kcall list
    \<Rightarrow> outcome \<times> fillet_declaration occ_operation \<times> kcall list" where
  "fillet_update_shape self calls =
     (let d = decl self in
      case children self of
        [] \<Rightarrow> (Raised (ValueError ''Fillet must have a child shape to operate on.''), self, calls)
      | child # _ \<Rightarrow>
          if \<not> hasattr_Shape (shape child)
          then (Raised (AttributeError ''Shape''), self, calls)
          else
            let s = ShapeOf (shape child);
                calls1 = calls @ [Construct (BRepFilletAPI_MakeFillet s [])];
                es = (if edges d \<noteq> [] then edges d else topology_edges child);
                (added, calls2) = fillet_loop (radius d) es ([], calls1)
            in (Returned, self\<lparr>shape := BRepFilletAPI_MakeFillet s added\<rparr>, calls2))"

section \<open>Chamfer\<close>

record chamfer_declaration = edges_declaration +
  faces :: "face list"
  distance :: real
  distance2 :: real

definition get_edges :: "chamfer_declaration occ_operation \<Rightarrow> occ_shape \<Rightarrow> (edge \<times> face) list" where
  "get_edges self s =
     (let d = decl self;
          es = (if edges d \<noteq> [] then edges d else topology_edges s);
          fs = (if faces d \<noteq> [] then faces d else topology_faces s)
      in zip es fs)"

text \<open>The argument list of one \<open>Add\<close>, before the edge and the face.\<close>

definition chamfer_args :: "chamfer_declaration \<Rightarrow> real list" where
  "chamfer_args d = [distance d] @ (if distance2 d \<noteq> 0 then [distance2 d] else [])"

fun chamfer_loop :: "chamfer_declaration \<Rightarrow> (edge \<times> face) list
    \<Rightarrow> (real list \<times> edge \<times> face) list \<times> kcall list
    \<Rightarrow> (real list \<times> edge \<times> face) list \<times> kcall list" where
  "chamfer_loop d [] acc = acc"
| "chamfer_loop d ((e, f) # ps) (added, calls) =
     chamfer_loop d ps
       (added @ [(chamfer_args d, e, f)], calls @ [Add_chamfer (chamfer_args d) e f])"

definition chamfer_update_shape :: "chamfer_declaration occ_operation \<Rightarrow> kcall list
    \<Rightarrow> outcome \<times> chamfer_declaration occ_operation \<times> kcall list" where
  "chamfer_update_shape self calls =
     (let d = decl self in
      case get_shape self of
        None \<Rightarrow> (Raised (AttributeError ''shape''), self, calls)
      | Some s \<Rightarrow>
          let b = Shape_or_self (shape s);
              calls1 = calls @ [Construct (BRepFilletAPI_MakeChamfer b [])];
              (added, calls2) = chamfer_loop d (get_edges self s) ([], calls1)
          in (Returned, self\<lparr>shape := BRepFilletAPI_MakeChamfer b added\<rparr>, calls2))"

section \<open>Thick solid\<close>

record thick_solid_declaration =
  closing_faces :: "face list"
  offset :: real
  tolerance :: real
  offset_mode :: offset_mode
  intersection :: bool
  join_type :: join_type

text \<open>
  \<open>get_faces\<close> returns the declared closing faces when there are some; otherwise it
  returns a list of the first face of the target's topology from inside the loop over
  them, and falls off its end, returning \<open>None\<close>, when the topology has no face.
\<close>

definition get_faces :: "thick_solid_declaration occ_operation \<Rightarrow> occ_shape option
    \<Rightarrow> error + face list option" where
  "get_faces self s =
     (let d = decl self in
      if closing_faces d \<noteq> [] then Inr (Some (closing_faces d))
      else case s of
             None \<Rightarrow> Inl (AttributeError ''topology'')
           | Some c \<Rightarrow> (case topology_faces c of [] \<Rightarrow> Inr None | f # _ \<Rightarrow> Inr (Some [f])))"

definition thick_solid_update_shape :: "thick_solid_declaration occ_operation \<Rightarrow> kcall list
    \<Rightarrow> outcome \<times> thick_solid_declaration occ_operation \<times> kcall list" where
  "thick_solid_update_shape self calls =
     (let d = decl self; s = get_shape self in
      case get_faces self s of
        Inl e \<Rightarrow> (Raised e, self, calls)
      | Inr None \<Rightarrow> (Raised (TypeError ''NoneType object is not iterable''), self, calls)
      | Inr (Some fs) \<Rightarrow>
          if fs = [] then (Returned, self, calls)
          else case s of
                 None \<Rightarrow> (Raised (AttributeError ''shape''), self, calls)
               | Some c \<Rightarrow>
                   if \<not> hasattr_Shape (shape c)
                   then (Raised (AttributeError ''Shape''), self, calls)
                   else
                     let b = BRepOffsetAPI_MakeThickSolid (ShapeOf (shape c)) fs (offset d)
                               (tolerance d) (offset_mode d) (intersection d) False (join_type d)
                     in (Returned, self\<lparr>shape := b\<rparr>, calls @ [Construct b]))"

text \<open>
  Concrete proxies: a fillet and a chamfer without children that hold an earlier shape,
  a chamfer with three declared edges and two declared faces, and a thick solid without
  declared closing faces whose target is a wire, which has edges and no face.
\<close>

definition childless_fillet :: "fillet_declaration occ_operation" where
  "childless_fillet =
     \<lparr>shape = Builder 7, topology_edges = [], topology_faces = [],
      decl = \<lparr>edges = [], radius = 2\<rparr>, children = []\<rparr>"

definition childless_chamfer :: "chamfer_declaration occ_operation" where
  "childless_chamfer =
     \<lparr>shape = Builder 7, topology_edges = [], topology_faces = [],
      decl = \<lparr>edges = [], faces = [], distance = 1, distance2 = 0\<rparr>, children = []\<rparr>"

definition box :: occ_shape where
  "box = \<lparr>shape = Builder 1,
           topology_edges = [Edge 1, Edge 2, Edge 3, Edge 4],
           topology_faces = [Face 1, Face 2, Face 3]\<rparr>"

definition chamfer_3_edges_2_faces :: "chamfer_declaration occ_operation" where
  "chamfer_3_edges_2_faces =
     \<lparr>shape = PyNone, topology_edges = [], topology_faces = [],
      decl = \<lparr>edges = [Edge 1, Edge 2, Edge 3], faces = [Face 1, Face 2],
               distance = 1, distance2 = 0\<rparr>,
      children = [box]\<rparr>"

definition wire :: occ_shape where
  "wire = \<lparr>shape = Builder 5, topology_edges = [Edge 1, Edge 2], topology_faces = []\<rparr>"

definition thick_solid_of_wire :: "thick_solid_declaration occ_operation" where
  "thick_solid_of_wire =
     \<lparr>shape = Builder 7, topology_edges = [], topology_faces = [],
      decl = \<lparr>closing_faces = [], offset = 1, tolerance = 0, offset_mode = BRepOffset_Skin,
               intersection = False, join_type = GeomAbs_Arc\<rparr>,
      children = [wire]\<rparr>"

section \<open>Deferred updates and observers\<close>

text \<open>
  Proxies are named by numbers.  A world holds what the engine keeps for each proxy: its
  declaration with the declared parameters (\<open>None\<close> once the proxy is destroyed), its
  \<open>_update_count\<close>, the shapes it remembers as observed (\<open>_old_spline\<close>,
  \<open>_old_profile\<close>, \<open>_old_shape\<close>); the callbacks \<open>_dequeue_update\<close> queued by
  \<open>timed_call\<close>, oldest first, each named by its proxy; for each proxy the proxies whose
  \<open>_queue_update\<close> observes its \<open>shape\<close>; and the invocations of
  \<open>update_shape\<close> so far, each with the declaration it reads.
\<close>

record 'p world =
  declared :: "nat \<Rightarrow> 'p option"
  update_count :: "nat \<Rightarrow> int"
  old_spline :: "nat \<Rightarrow> nat option"
  old_profile :: "nat \<Rightarrow> nat option"
  old_shape :: "nat \<Rightarrow> nat option"
  timed_calls :: "nat list"
  observers :: "nat \<Rightarrow> nat list"
  updates :: "(nat \<times> 'p) list"

definition queue_update :: "nat \<Rightarrow> 'p world \<Rightarrow> 'p world" where
  "queue_update self w =
     w\<lparr>update_count := (update_count w)(self := update_count w self + 1),
       timed_calls := timed_calls w @ [self]\<rparr>"

text \<open>
  \<open>_dequeue_update\<close>.  The call \<open>self.update_shape(change)\<close> is dispatched on the
  proxy's class; here it is recorded with the declaration it reads.
\<close>

definition dequeue_update :: "nat \<Rightarrow> 'p world \<Rightarrow> 'p world" where
  "dequeue_update self w =
     (let w1 = w\<lparr>update_count := (update_count w)(self := update_count w self - 1)\<rparr> in
      if update_count w1 self \<noteq> 0 then w1
      else case declared w1 self of
             None \<Rightarrow> w1
           | Some d \<Rightarrow> w1\<lparr>updates := updates w1 @ [(self, d)]\<rparr>)"

text \<open>
  The event loop fires the queued callbacks, oldest first; \<open>run k\<close> fires the first
  \<open>k\<close> of them.
\<close>

fun run :: "nat \<Rightarrow> 'p world \<Rightarrow> 'p world" where
  "run 0 w = w"
| "run (Suc k) w =
     (case timed_calls w of
        [] \<Rightarrow> w
      | self # rest \<Rightarrow> run k (dequeue_update self (w\<lparr>timed_calls := rest\<rparr>)))"

text \<open>
  Modelled from the spec: \<open>set_parameter(node, field, value)\<close>, whose declaration side
  is not among the sources.  The declared parameters take their new value and the proxy's
  setter runs; every such setter of the sources (\<open>set_radius\<close>, \<open>set_offset\<close>,
  \<open>set_fill_mode\<close>, ...) is \<open>self._queue_update({})\<close>.
\<close>

definition set_parameter :: "nat \<Rightarrow> 'p \<Rightarrow> 'p world \<Rightarrow> 'p world" where
  "set_parameter self v w =
     queue_update self
       (w\<lparr>declared := (declared w)(self := map_option (\<lambda>_. v) (declared w self))\<rparr>)"

text \<open>A burst of writes on one proxy, none of the queued callbacks firing in between.\<close>

definition burst :: "nat \<Rightarrow> 'p list \<Rightarrow> 'p world \<Rightarrow> 'p world" where
  "burst self vs w = foldl (\<lambda>w v. set_parameter self v w) w vs"

text \<open>The invocations of \<open>update_shape\<close> of one proxy.\<close>

definition updates_of :: "nat \<Rightarrow> 'p world \<Rightarrow> (nat \<times> 'p) list" where
  "updates_of self w = filter (\<lambda>u. fst u = self) (updates w)"

text \<open>
  Modelled from the spec: the change notification of the attribute system
  (\<open>observe\<close>, \<open>unobserve\<close> and the notification of a changed \<open>shape\<close>), which is
  not among the sources.  The spec has a dependency edge be a subscribe/unsubscribe
  relation from a consumer to a producer's change notification: a callback is subscribed
  to a producer at most once, unsubscribing removes it, and a change of the producer's
  shape calls every subscribed callback, here the consumer's \<open>_queue_update\<close>.
\<close>

definition observe :: "nat \<Rightarrow> nat \<Rightarrow> 'p world \<Rightarrow> 'p world" where
  "observe producer self w =
     w\<lparr>observers := (observers w)(producer :=
          (if self \<in> set (observers w producer) then observers w producer
           else observers w producer @ [self]))\<rparr>"

definition unobserve :: "nat \<Rightarrow> nat \<Rightarrow> 'p world \<Rightarrow> 'p world" where
  "unobserve producer self w =
     w\<lparr>observers := (observers w)(producer := removeAll self (observers w producer))\<rparr>"

definition shape_changed :: "nat \<Rightarrow> 'p world \<Rightarrow> 'p world" where
  "shape_changed producer w = foldl (\<lambda>w c. queue_update c w) w (observers w producer)"

text \<open>The producers a proxy observes.\<close>

definition observed :: "nat \<Rightarrow> 'p world \<Rightarrow> nat set" where
  "observed self w = {p. self \<in> set (observers w p)}"

text \<open>
  \<open>OccPipe.set_spline\<close> and \<open>OccPipe.set_profile\<close>; the argument names the proxy of
  the referenced declaration (\<open>spline.proxy\<close>).
\<close>

definition set_spline :: "nat \<Rightarrow> nat \<Rightarrow> 'p world \<Rightarrow> 'p world" where
  "set_spline self spline w =
     (let w1 = (case old_spline w self of None \<Rightarrow> w | Some old \<Rightarrow> unobserve old self w);
          child = spline;
          w2 = observe child self w1;
          w3 = w2\<lparr>old_spline := (old_spline w2)(self \<mapsto> child)\<rparr>
      in queue_update self w3)"

definition set_profile :: "nat \<Rightarrow> nat \<Rightarrow> 'p world \<Rightarrow> 'p world" where
  "set_profile self profile w =
     (let w1 = (case old_profile w self of None \<Rightarrow> w | Some old \<Rightarrow> unobserve old self w);
          child = profile;
          w2 = observe child self w1;
          w3 = w2\<lparr>old_profile := (old_profile w2)(self \<mapsto> child)\<rparr>
      in queue_update self w3)"

text \<open>\<open>OccTransform.set_shape\<close>.\<close>

definition transform_set_shape :: "nat \<Rightarrow> nat \<Rightarrow> 'p world \<Rightarrow> 'p world" where
  "transform_set_shape self shape' w =
     (let w1 = (case old_shape w self of None \<Rightarrow> w | Some old \<Rightarrow> unobserve old self w);
          w2 = w1\<lparr>old_shape := (old_shape w1)(self \<mapsto> shape')\<rparr>
      in observe shape' self w2)"

text \<open>The shapes a pipe references explicitly, as it remembers them.\<close>

definition explicit_refs :: "nat \<Rightarrow> 'p world \<Rightarrow> nat set" where
  "explicit_refs self w = set_option (old_spline w self) \<union> set_option (old_profile w self)"

text \<open>The counter of a proxy agrees with the number of its queued callbacks.\<close>

definition pending_ok :: "nat \<Rightarrow> 'p world \<Rightarrow> bool" where
  "pending_ok self w = (update_count w self = int (count_list (timed_calls w) self))"

text \<open>
  Concrete worlds, the operation being proxy 0: a settled operation with a declared
  parameter; a pipe bound to shape 1 as its spline and to shape 3 as its profile; a
  transform bound to shape 1.
\<close>

definition settled_world :: "int world" where
  "settled_world =
     \<lparr>declared = (\<lambda>_. Some 0), update_count = (\<lambda>_. 0),
      old_spline = (\<lambda>_. None), old_profile = (\<lambda>_. None), old_shape = (\<lambda>_. None),
      timed_calls = [], observers = (\<lambda>_. []), updates = []\<rparr>"

definition pipe_world :: "int world" where
  "pipe_world =
     \<lparr>declared = (\<lambda>_. Some 0), update_count = (\<lambda>_. 0),
      old_spline = (\<lambda>_. None)(0 \<mapsto> 1), old_profile = (\<lambda>_. None)(0 \<mapsto> 3),
      old_shape = (\<lambda>_. None),
      timed_calls = [], observers = (\<lambda>_. [])(1 := [0], 3 := [0]), updates = []\<rparr>"

definition transform_world :: "int world" where
  "transform_world =
     \<lparr>declared = (\<lambda>_. Some 0), update_count = (\<lambda>_. 0),
      old_spline = (\<lambda>_. None), old_profile = (\<lambda>_. None), old_shape = (\<lambda>_. None)(0 \<mapsto> 1),
      timed_calls = [], observers = (\<lambda>_. [])(1 := [0]), updates = []\<rparr>"

text \<open>
  A pipe bound through its setters to shape 1 as spline and shape 3 as profile, and the
  same pipe after the two references are exchanged, the spline first.
\<close>

definition bound_pipe :: "int world" where
  "bound_pipe = set_profile 0 3 (set_spline 0 1 settled_world)"

definition swapped_pipe :: "int world" where
  "swapped_pipe = set_profile 0 1 (set_spline 0 3 bound_pipe)"

section \<open>Transform\<close>

text \<open>
  Modelled from the spec: the kernel's transformation \<open>gp_Trsf\<close> and the elementary
  matrices of its setters, which belong to the external kernel.  A transformation is the
  affine map taking \<open>p\<close> to \<open>matrix p + loc\<close>, over the reals; \<open>Multiply\<close> is the
  product on the right, \<open>a := a * b\<close>; a direction is normalised by \<open>gp_Dir\<close>, which
  refuses the null vector.
\<close>

type_synonym gp_XYZ = "real \<times> real \<times> real"

type_synonym gp_Mat = "gp_XYZ \<times> gp_XYZ \<times> gp_XYZ"

record gp_Trsf =
  matrix :: gp_Mat
  loc :: gp_XYZ

fun add_XYZ :: "gp_XYZ \<Rightarrow> gp_XYZ \<Rightarrow> gp_XYZ" where
  "add_XYZ (a, b, c) (x, y, z) = (a + x, b + y, c + z)"

fun sub_XYZ :: "gp_XYZ \<Rightarrow> gp_XYZ \<Rightarrow> gp_XYZ" where
  "sub_XYZ (a, b, c) (x, y, z) = (a - x, b - y, c - z)"

fun dot_XYZ :: "gp_XYZ \<Rightarrow> gp_XYZ \<Rightarrow> real" where
  "dot_XYZ (a, b, c) (x, y, z) = a * x + b * y + c * z"

fun mat_XYZ :: "gp_Mat \<Rightarrow> gp_XYZ \<Rightarrow> gp_XYZ" where
  "mat_XYZ (r1, r2, r3) v = (dot_XYZ r1 v, dot_XYZ r2 v, dot_XYZ r3 v)"

fun mat_mat :: "gp_Mat \<Rightarrow> gp_Mat \<Rightarrow> gp_Mat" where
  "mat_mat (r1, r2, r3) ((b11, b12, b13), (b21, b22, b23), (b31, b32, b33)) =
     (let c1 = (b11, b21, b31); c2 = (b12, b22, b32); c3 = (b13, b23, b33) in
      ((dot_XYZ r1 c1, dot_XYZ r1 c2, dot_XYZ r1 c3),
       (dot_XYZ r2 c1, dot_XYZ r2 c2, dot_XYZ r2 c3),
       (dot_XYZ r3 c1, dot_XYZ r3 c2, dot_XYZ r3 c3)))"

definition identity_Mat :: gp_Mat where
  "identity_Mat = ((1, 0, 0), (0, 1, 0), (0, 0, 1))"

text \<open>\<open>gp_Trsf()\<close>, the identity.\<close>

definition identity_Trsf :: gp_Trsf where
  "identity_Trsf = \<lparr>matrix = identity_Mat, loc = (0, 0, 0)\<rparr>"

definition Multiply :: "gp_Trsf \<Rightarrow> gp_Trsf \<Rightarrow> gp_Trsf" where
  "Multiply a b =
     \<lparr>matrix = mat_mat (matrix a) (matrix b),
      loc = add_XYZ (mat_XYZ (matrix a) (loc b)) (loc a)\<rparr>"

text \<open>The image of a point.\<close>

definition Transforms :: "gp_Trsf \<Rightarrow> gp_XYZ \<Rightarrow> gp_XYZ" where
  "Transforms t p = add_XYZ (mat_XYZ (matrix t) p) (loc t)"

definition gp_Dir :: "real \<Rightarrow> real \<Rightarrow> real \<Rightarrow> error + gp_XYZ" where
  "gp_Dir x y z =
     (let n = sqrt (x * x + y * y + z * z) in
      if n = 0 then Inl Standard_ConstructionError else Inr (x / n, y / n, z / n))"

definition SetTranslation :: "gp_XYZ \<Rightarrow> gp_Trsf" where
  "SetTranslation v = \<lparr>matrix = identity_Mat, loc = v\<rparr>"

text \<open>The map that fixes \<open>p\<close> and has the linear part \<open>m\<close>.\<close>

definition about :: "gp_XYZ \<Rightarrow> gp_Mat \<Rightarrow> gp_Trsf" where
  "about p m = \<lparr>matrix = m, loc = sub_XYZ p (mat_XYZ m p)\<rparr>"

fun SetRotation :: "gp_XYZ \<Rightarrow> gp_XYZ \<Rightarrow> real \<Rightarrow> gp_Trsf" where
  "SetRotation p (dx, dy, dz) a =
     (let c = cos a; s = sin a; t = 1 - c in
      about p
        ((t * dx * dx + c, t * dx * dy - s * dz, t * dx * dz + s * dy),
         (t * dx * dy + s * dz, t * dy * dy + c, t * dy * dz - s * dx),
         (t * dx * dz - s * dy, t * dy * dz + s * dx, t * dz * dz + c)))"

fun SetMirror :: "gp_XYZ \<Rightarrow> gp_XYZ \<Rightarrow> gp_Trsf" where
  "SetMirror p (dx, dy, dz) =
     about p
       ((2 * dx * dx - 1, 2 * dx * dy, 2 * dx * dz),
        (2 * dx * dy, 2 * dy * dy - 1, 2 * dy * dz),
        (2 * dx * dz, 2 * dy * dz, 2 * dz * dz - 1))"

definition SetScale :: "gp_XYZ \<Rightarrow> real \<Rightarrow> gp_Trsf" where
  "SetScale p s = about p ((s, 0, 0), (0, s, 0), (0, 0, s))"

text \<open>
  The declared operations, with the attributes \<open>get_transform\<close> reads: the components
  of a translation; the point, direction and angle of a rotation; the point and the
  components of the direction of a mirror; the point and the factor of a scale.
\<close>

datatype operation =
    Translate real real real
  | Rotate gp_XYZ gp_XYZ real
  | Mirror gp_XYZ real real real
  | Scale gp_XYZ real

record transform_declaration =
  operations :: "operation list"

text \<open>The transformation \<open>t\<close> that the body of the loop of \<open>get_transform\<close> sets.\<close>

fun elementary :: "operation \<Rightarrow> error + gp_Trsf" where
  "elementary (Translate x y z) = Inr (SetTranslation (x, y, z))"
| "elementary (Rotate point (dx, dy, dz) angle) =
     (case gp_Dir dx dy dz of
        Inl e \<Rightarrow> Inl e
      | Inr d \<Rightarrow> Inr (SetRotation point d angle))"
| "elementary (Mirror point x y z) =
     (case gp_Dir x y z of
        Inl e \<Rightarrow> Inl e
      | Inr d \<Rightarrow> Inr (SetMirror point d))"
| "elementary (Scale point s) = Inr (SetScale point s)"

fun transform_loop :: "gp_Trsf \<Rightarrow> operation list \<Rightarrow> error + gp_Trsf" where
  "transform_loop result [] = Inr result"
| "transform_loop result (x # xs) =
     (case elementary x of
        Inl e \<Rightarrow> Inl e
      | Inr t \<Rightarrow> transform_loop (Multiply result t) xs)"

definition get_transform :: "transform_declaration occ_operation \<Rightarrow> error + gp_Trsf" where
  "get_transform self = (let d = decl self in transform_loop identity_Trsf (operations d))"

text \<open>A transform proxy that declares the given operations.\<close>

definition transform_of :: "operation list \<Rightarrow> transform_declaration occ_operation" where
  "transform_of xs =
     \<lparr>shape = PyNone, topology_edges = [], topology_faces = [],
      decl = \<lparr>operations = xs\<rparr>, children = []\<rparr>"

text \<open>The rotation by a quarter turn about the z axis through the origin.\<close>

definition quarter_turn_z :: operation where
  "quarter_turn_z = Rotate (0, 0, 0) (0, 0, 1) (pi / 2)"

section \<open>Properties of the boolean reduction\<close>

lemma boolean_step_frame [simp]:
  "kind (boolean_step self c) = kind self" "decl (boolean_step self c) = decl self"
  by (simp_all add: boolean_step_def Let_def)

lemma do_operation_cong:
  "kind a = kind b \<Longrightarrow> decl a = decl b \<Longrightarrow> do_operation a = do_operation b"
  by (simp add: do_operation_def fun_eq_iff)

lemma kernel_op_cong:
  "kind a = kind b \<Longrightarrow> decl a = decl b \<Longrightarrow> kernel_op a = kernel_op b"
  by (simp add: kernel_op_def do_operation_def fun_eq_iff)

lemma truthy_do_operation [simp]: "truthy (do_operation self a b)"
  by (simp add: do_operation_def)

lemma hasattr_do_operation [simp]: "hasattr_Shape (do_operation self a b)"
  by (simp add: do_operation_def)

lemma truthy_foldl_kernel_op:
  "truthy a \<Longrightarrow> truthy (foldl (kernel_op self) a xs)"
  by (induction xs arbitrary: a) (simp_all add: kernel_op_def)

lemma boolean_loop_truthy:
  "truthy (shape self) \<Longrightarrow>
   shape (boolean_loop self cs) = foldl (kernel_op self) (shape self) (map shape cs)"
proof (induction cs arbitrary: self)
  case Nil
  then show ?case by simp
next
  case (Cons c cs)
  have t: "truthy (shape (boolean_step self c))"
    using Cons.prems by (simp add: boolean_step_def)
  have k: "kernel_op (boolean_step self c) = kernel_op self"
    by (rule kernel_op_cong) simp_all
  have s: "shape (boolean_step self c) = kernel_op self (shape self) (shape c)"
    using Cons.prems by (simp add: boolean_step_def kernel_op_def do_operation_def)
  show ?case using Cons.IH [OF t] by (simp add: k s)
qed

lemma boolean_loop_frame [simp]:
  "kind (boolean_loop self cs) = kind self" "decl (boolean_loop self cs) = decl self"
  by (induction cs arbitrary: self) simp_all

lemma solid_Shape_or_self [simp]: "solid points (Shape_or_self v) = solid points v"
  by (simp add: Shape_or_self_def)

lemma solid_kernel_op:
  "solid points (kernel_op self a c) = combine (kind self) (solid points a) (solid points c)"
  by (simp add: kernel_op_def do_operation_def)

lemma solid_foldl_kernel_op:
  "solid points (foldl (kernel_op self) a xs) =
     foldl (combine (kind self)) (solid points a) (map (solid points) xs)"
  by (induction xs arbitrary: a) (simp_all add: solid_kernel_op)

text \<open>A reduction by one of the three operations depends on the set of the operands only.\<close>

lemma foldl_combine:
  "foldl (combine k) S Ts =
     (case k of Common \<Rightarrow> S \<inter> (\<Inter>T \<in> set Ts. T)
              | Cut \<Rightarrow> S - (\<Union>T \<in> set Ts. T)
              | Fuse \<Rightarrow> S \<union> (\<Union>T \<in> set Ts. T))"
proof (induction Ts arbitrary: S)
  case Nil
  then show ?case by (cases k) simp_all
next
  case (Cons T Ts)
  then show ?case by (cases k) auto
qed

lemma foldl_combine_set:
  "set Ts = set Us \<Longrightarrow> foldl (combine k) S Ts = foldl (combine k) S Us"
  by (cases k) (simp_all add: foldl_combine)

text \<open>
  Claim C1, as amended.  When both operands are present, a rebuild of a boolean node
  stores the left fold of the kernel operation: it starts from the operation applied to
  \<open>shape1\<close> and \<open>shape2\<close> and applies it to the children in declared order, each
  step taking the accumulated builder's \<open>Shape()\<close> and the child's shape.  For a cut
  with children \<open>[C, D]\<close> this is \<open>Cut(Cut(Cut(A, B), C), D)\<close>.  Reordering the
  children reorders the kernel calls with them, and the solid that the result denotes
  stays the same: successive cuts, commons and fuses commute.
\<close>

theorem boolean_left_fold:
  assumes "truthy (shape1 (decl self))" and "truthy (shape2 (decl self))"
  shows "shape (update_shape self) =
           foldl (kernel_op self) (do_operation self (shape1 (decl self)) (shape2 (decl self)))
             (map shape (children self))
       \<and> (\<forall>C D. kind self = Cut \<and> children self = [C, D] \<longrightarrow>
            shape (update_shape self) =
              BRepAlgoAPI Cut
                (ShapeOf (BRepAlgoAPI Cut
                   (ShapeOf (BRepAlgoAPI Cut (shape1 (decl self)) (shape2 (decl self))
                      (pave_filler (decl self))))
                   (Shape_or_self (shape C)) (pave_filler (decl self))))
                (Shape_or_self (shape D)) (pave_filler (decl self)))
       \<and> (\<forall>cs. mset cs = mset (children self) \<longrightarrow>
              shape (update_shape (self\<lparr>children := cs\<rparr>)) =
                foldl (kernel_op self)
                  (do_operation self (shape1 (decl self)) (shape2 (decl self))) (map shape cs)
            \<and> solid points (shape (update_shape (self\<lparr>children := cs\<rparr>)))
                = solid points (shape (update_shape self)))"
proof -
  let ?a = "do_operation self (shape1 (decl self)) (shape2 (decl self))"
  have upd: "shape (update_shape (self\<lparr>children := cs\<rparr>)) =
      foldl (kernel_op self) ?a (map shape cs)" for cs
  proof -
    let ?s = "self\<lparr>children := cs\<rparr>"
    have c: "create_shape ?s = ?s\<lparr>shape := ?a\<rparr>"
      using assms by (simp add: create_shape_def Let_def do_operation_def)
    have k: "kernel_op (?s\<lparr>shape := ?a\<rparr>) = kernel_op self"
      by (rule kernel_op_cong) simp_all
    have t: "truthy (shape (?s\<lparr>shape := ?a\<rparr>))" by simp
    show ?thesis
      using boolean_loop_truthy [OF t, of cs] by (simp add: update_shape_def c k)
  qed
  have one: "shape (update_shape self) = foldl (kernel_op self) ?a (map shape (children self))"
    using upd [of "children self"] by simp
  have two: "\<forall>C D. kind self = Cut \<and> children self = [C, D] \<longrightarrow>
            shape (update_shape self) =
              BRepAlgoAPI Cut
                (ShapeOf (BRepAlgoAPI Cut
                   (ShapeOf (BRepAlgoAPI Cut (shape1 (decl self)) (shape2 (decl self))
                      (pave_filler (decl self))))
                   (Shape_or_self (shape C)) (pave_filler (decl self))))
                (Shape_or_self (shape D)) (pave_filler (decl self))"
    by (simp add: one kernel_op_def do_operation_def Shape_or_self_def)
  have three: "\<forall>cs. mset cs = mset (children self) \<longrightarrow>
              shape (update_shape (self\<lparr>children := cs\<rparr>)) =
                foldl (kernel_op self) ?a (map shape cs)
            \<and> solid points (shape (update_shape (self\<lparr>children := cs\<rparr>)))
                = solid points (shape (update_shape self))"
  proof (intro allI impI conjI)
    fix cs
    assume m: "mset cs = mset (children self)"
    show "shape (update_shape (self\<lparr>children := cs\<rparr>)) = foldl (kernel_op self) ?a (map shape cs)"
      by (rule upd)
    have "set cs = set (children self)" using m by (rule mset_eq_setD)
    then have "set (map (solid points) (map shape cs))
        = set (map (solid points) (map shape (children self)))"
      by simp
    then have "foldl (combine (kind self)) (solid points ?a) (map (solid points) (map shape cs))
        = foldl (combine (kind self)) (solid points ?a)
            (map (solid points) (map shape (children self)))"
      by (rule foldl_combine_set)
    then show "solid points (shape (update_shape (self\<lparr>children := cs\<rparr>)))
        = solid points (shape (update_shape self))"
      by (simp only: upd one solid_foldl_kernel_op)
  qed
  from one two three show ?thesis by blast
qed

theorem boolean_left_fold_witness:
  "truthy (shape1 (decl cut_A_B_C_D)) \<and> truthy (shape2 (decl cut_A_B_C_D))
   \<and> shape (update_shape cut_A_B_C_D) =
       BRepAlgoAPI Cut
         (ShapeOf (BRepAlgoAPI Cut
            (ShapeOf (BRepAlgoAPI Cut (TopoDS 1) (TopoDS 2) None)) (TopoDS 3) None))
         (ShapeOf (Builder 4)) None
   \<and> mset (rev (children cut_A_B_C_D)) = mset (children cut_A_B_C_D)
   \<and> solid cells (shape (update_shape (cut_A_B_C_D\<lparr>children := rev (children cut_A_B_C_D)\<rparr>)))
       = solid cells (shape (update_shape cut_A_B_C_D))"
proof -
  have h1: "truthy (shape1 (decl cut_A_B_C_D))" and h2: "truthy (shape2 (decl cut_A_B_C_D))"
    by (simp_all add: cut_A_B_C_D_def)
  note th = boolean_left_fold [OF h1 h2, of cells]
  have k: "kind cut_A_B_C_D = Cut
     \<and> children cut_A_B_C_D = [\<lparr>shape = TopoDS 3, topology_edges = [], topology_faces = []\<rparr>,
                  \<lparr>shape = Builder 4, topology_edges = [], topology_faces = []\<rparr>]"
    by (simp add: cut_A_B_C_D_def)
  have d: "shape1 (decl cut_A_B_C_D) = TopoDS 1" "shape2 (decl cut_A_B_C_D) = TopoDS 2"
    "pave_filler (decl cut_A_B_C_D) = None"
    by (simp_all add: cut_A_B_C_D_def)
  have so: "Shape_or_self (shape \<lparr>shape = TopoDS 3, topology_edges = [], topology_faces = []\<rparr>)
       = TopoDS 3"
    "Shape_or_self (shape \<lparr>shape = Builder 4, topology_edges = [], topology_faces = []\<rparr>)
       = ShapeOf (Builder 4)"
    by (simp_all add: Shape_or_self_def)
  from th k have "shape (update_shape cut_A_B_C_D) =
       BRepAlgoAPI Cut
         (ShapeOf (BRepAlgoAPI Cut
            (ShapeOf (BRepAlgoAPI Cut (shape1 (decl cut_A_B_C_D)) (shape2 (decl cut_A_B_C_D))
               (pave_filler (decl cut_A_B_C_D))))
            (Shape_or_self (shape \<lparr>shape = TopoDS 3, topology_edges = [], topology_faces = []\<rparr>))
            (pave_filler (decl cut_A_B_C_D))))
         (Shape_or_self (shape \<lparr>shape = Builder 4, topology_edges = [], topology_faces = []\<rparr>))
         (pave_filler (decl cut_A_B_C_D))"
    by blast
  then have a: "shape (update_shape cut_A_B_C_D) =
       BRepAlgoAPI Cut
         (ShapeOf (BRepAlgoAPI Cut
            (ShapeOf (BRepAlgoAPI Cut (TopoDS 1) (TopoDS 2) None)) (TopoDS 3) None))
         (ShapeOf (Builder 4)) None"
    by (simp only: d so)
  have r: "mset (rev (children cut_A_B_C_D)) = mset (children cut_A_B_C_D)"
    by simp
  have b: "solid cells (shape (update_shape (cut_A_B_C_D\<lparr>children := rev (children cut_A_B_C_D)\<rparr>)))
       = solid cells (shape (update_shape cut_A_B_C_D))"
    using th r by blast
  from h1 h2 a r b show ?thesis by blast
qed

text \<open>
  The claim as stated fails: it has a reordering of the children change the result.  The
  cut of the concrete node and the cut with its two children in the other order issue
  their kernel calls in different orders and denote the same solid, the cells 4 and 5.
\<close>

theorem boolean_reorder_counterexample:
  "children (cut_A_B_C_D\<lparr>children := rev (children cut_A_B_C_D)\<rparr>) \<noteq> children cut_A_B_C_D
   \<and> solid cells (shape (update_shape cut_A_B_C_D)) = {4, 5}
   \<and> solid cells (shape (update_shape (cut_A_B_C_D\<lparr>children := rev (children cut_A_B_C_D)\<rparr>)))
       = {4, 5}"
proof -
  have a: "shape (update_shape cut_A_B_C_D) =
       BRepAlgoAPI Cut
         (ShapeOf (BRepAlgoAPI Cut
            (ShapeOf (BRepAlgoAPI Cut (TopoDS 1) (TopoDS 2) None)) (TopoDS 3) None))
         (ShapeOf (Builder 4)) None"
    by (simp add: cut_A_B_C_D_def update_shape_def create_shape_def boolean_step_def
        do_operation_def Shape_or_self_def)
  have b: "shape (update_shape (cut_A_B_C_D\<lparr>children := rev (children cut_A_B_C_D)\<rparr>)) =
       BRepAlgoAPI Cut
         (ShapeOf (BRepAlgoAPI Cut
            (ShapeOf (BRepAlgoAPI Cut (TopoDS 1) (TopoDS 2) None)) (ShapeOf (Builder 4)) None))
         (TopoDS 3) None"
    by (simp add: cut_A_B_C_D_def update_shape_def create_shape_def boolean_step_def
        do_operation_def Shape_or_self_def)
  have c: "children (cut_A_B_C_D\<lparr>children := rev (children cut_A_B_C_D)\<rparr>) \<noteq> children cut_A_B_C_D"
    by (simp add: cut_A_B_C_D_def)
  have sa: "solid cells (shape (update_shape cut_A_B_C_D)) = {4, 5}"
    by (simp only: a) (auto simp add: cells_def)
  have sb: "solid cells (shape (update_shape (cut_A_B_C_D\<lparr>children := rev (children cut_A_B_C_D)\<rparr>)))
       = {4, 5}"
    by (simp only: b) (auto simp add: cells_def)
  from c sa sb show ?thesis by blast
qed

lemma truthy_iff: "truthy v \<longleftrightarrow> v \<noteq> PyNone"
  by (cases v) simp_all

lemma boolean_loop_falsy:
  "shape self = PyNone \<Longrightarrow>
   (shape (boolean_loop self cs) = PyNone) = (\<forall>c \<in> set cs. shape c = PyNone)"
proof (induction cs arbitrary: self)
  case Nil
  then show ?case by simp
next
  case (Cons c cs)
  have step: "boolean_step self c = self\<lparr>shape := shape c\<rparr>"
    using Cons.prems by (simp add: boolean_step_def)
  show ?case
  proof (cases "shape c = PyNone")
    case True
    then show ?thesis using Cons.IH [of "self\<lparr>shape := shape c\<rparr>"] by (simp add: step)
  next
    case False
    then have t: "truthy (shape (self\<lparr>shape := shape c\<rparr>))" by (simp add: truthy_iff)
    have "truthy (shape (boolean_loop (self\<lparr>shape := shape c\<rparr>) cs))"
      using t by (simp only: boolean_loop_truthy [OF t] truthy_foldl_kernel_op)
    then show ?thesis using False by (simp add: step truthy_iff)
  qed
qed

text \<open>
  Claim C2, as amended.  When an operand is absent, \<open>create_shape\<close> stores
  \<open>None\<close>, whatever the children; the rebuild then goes on over the children: its
  result is \<open>None\<close> exactly when no child has a shape, and when the first child has
  one the result is the reduction of the remaining children from it.
\<close>

theorem boolean_unconfigured:
  assumes "\<not> (truthy (shape1 (decl self)) \<and> truthy (shape2 (decl self)))"
  shows "shape (create_shape self) = PyNone
       \<and> ((shape (update_shape self) = PyNone) = (\<forall>c \<in> set (children self). shape c = PyNone))
       \<and> (\<forall>c cs. children self = c # cs \<and> truthy (shape c) \<longrightarrow>
             shape (update_shape self) = foldl (kernel_op self) (shape c) (map shape cs))"
proof -
  have cs: "create_shape self = self\<lparr>shape := PyNone\<rparr>"
    using assms by (auto simp add: create_shape_def Let_def)
  have one: "shape (create_shape self) = PyNone" by (simp add: cs)
  have two: "(shape (update_shape self) = PyNone) = (\<forall>c \<in> set (children self). shape c = PyNone)"
    unfolding update_shape_def by (rule boolean_loop_falsy) (rule one)
  have three: "\<forall>c cs. children self = c # cs \<and> truthy (shape c) \<longrightarrow>
             shape (update_shape self) = foldl (kernel_op self) (shape c) (map shape cs)"
  proof (intro allI impI, elim conjE)
    fix c cs
    assume ch: "children self = c # cs" and t: "truthy (shape c)"
    let ?s = "self\<lparr>shape := shape c\<rparr>"
    have step: "boolean_step (self\<lparr>shape := PyNone\<rparr>) c = ?s"
      by (simp add: boolean_step_def)
    have t': "truthy (shape ?s)" using t by simp
    have k: "kernel_op ?s = kernel_op self" by (rule kernel_op_cong) simp_all
    show "shape (update_shape self) = foldl (kernel_op self) (shape c) (map shape cs)"
      using boolean_loop_truthy [OF t', of cs] by (simp add: update_shape_def cs ch step k)
  qed
  from one two three show ?thesis by blast
qed

text \<open>
  The claim as stated fails: with \<open>shape1\<close> absent and one child, the rebuild stores
  the child's shape.
\<close>

theorem boolean_unconfigured_counterexample:
  "shape1 (decl unconfigured_cut) = PyNone
   \<and> shape (update_shape unconfigured_cut) = TopoDS 3
   \<and> shape (update_shape unconfigured_cut) \<noteq> PyNone"
  by (simp add: unconfigured_cut_def update_shape_def create_shape_def boolean_step_def)

theorem boolean_unconfigured_witness:
  "\<not> (truthy (shape1 (decl unconfigured_cut)) \<and> truthy (shape2 (decl unconfigured_cut)))
   \<and> shape (create_shape unconfigured_cut) = PyNone
   \<and> shape (update_shape unconfigured_cut)
       = foldl (kernel_op unconfigured_cut) (TopoDS 3) []"
proof -
  have h: "\<not> (truthy (shape1 (decl unconfigured_cut)) \<and> truthy (shape2 (decl unconfigured_cut)))"
    by (simp add: unconfigured_cut_def)
  have c: "children unconfigured_cut
      = \<lparr>shape = TopoDS 3, topology_edges = [], topology_faces = []\<rparr> # []"
    by (simp add: unconfigured_cut_def)
  from boolean_unconfigured [OF h] c h show ?thesis by auto
qed

section \<open>Properties of fillet, chamfer and thick solid\<close>

lemma submitted_pairs_append:
  "submitted_pairs (xs @ ys) = submitted_pairs xs @ submitted_pairs ys"
  by (induction xs rule: submitted_pairs.induct) simp_all

lemma chamfer_loop_eq:
  "chamfer_loop d ps (added, calls) =
     (added @ map (\<lambda>(e, f). (chamfer_args d, e, f)) ps,
      calls @ map (\<lambda>(e, f). Add_chamfer (chamfer_args d) e f) ps)"
  by (induction ps arbitrary: added calls) auto

lemma submitted_pairs_adds:
  "submitted_pairs (map (\<lambda>(e, f). Add_chamfer a e f) ps) = ps"
  by (induction ps) auto

lemma chamfer_update_shape_child:
  assumes "children self = s # cs"
  shows "chamfer_update_shape self calls =
     (Returned,
      self\<lparr>shape := BRepFilletAPI_MakeChamfer (Shape_or_self (shape s))
                 (map (\<lambda>(e, f). (chamfer_args (decl self), e, f)) (get_edges self s))\<rparr>,
      calls @ Construct (BRepFilletAPI_MakeChamfer (Shape_or_self (shape s)) [])
        # map (\<lambda>(e, f). Add_chamfer (chamfer_args (decl self)) e f) (get_edges self s))"
  using assms by (simp add: chamfer_update_shape_def get_shape_def chamfer_loop_eq Let_def)

text \<open>
  Claim C5.  For a chamfer with a first child, the pairs handed to the kernel builder are
  the positional zip of the resolved edges (the declared ones, or those of the child's
  topology when none is declared) with the resolved faces, so as many as the shorter of
  the two; the rebuild returns and submits exactly these pairs, in order.  With three
  declared edges and two declared faces the first two edges are paired and the third is
  not submitted.
\<close>

theorem chamfer_pairs:
  assumes "children self = s # cs"
  shows "get_edges self s =
           zip (if edges (decl self) = [] then topology_edges s else edges (decl self))
               (if faces (decl self) = [] then topology_faces s else faces (decl self))
       \<and> fst (chamfer_update_shape self calls) = Returned
       \<and> submitted_pairs (snd (snd (chamfer_update_shape self calls)))
           = submitted_pairs calls @ get_edges self s
       \<and> length (get_edges self s) =
           min (length (if edges (decl self) = [] then topology_edges s else edges (decl self)))
               (length (if faces (decl self) = [] then topology_faces s else faces (decl self)))
       \<and> (\<forall>e1 e2 e3 f1 f2. edges (decl self) = [e1, e2, e3] \<and> faces (decl self) = [f1, f2] \<longrightarrow>
             submitted_pairs (snd (snd (chamfer_update_shape self []))) = [(e1, f1), (e2, f2)]
             \<and> (e3 \<noteq> e1 \<and> e3 \<noteq> e2 \<longrightarrow>
                  e3 \<notin> fst ` set (submitted_pairs (snd (snd (chamfer_update_shape self []))))))"
proof -
  have g: "get_edges self s =
           zip (if edges (decl self) = [] then topology_edges s else edges (decl self))
               (if faces (decl self) = [] then topology_faces s else faces (decl self))"
    by (simp add: get_edges_def Let_def)
  have r: "fst (chamfer_update_shape self calls) = Returned" for calls
    by (simp add: chamfer_update_shape_child [OF assms])
  have p: "submitted_pairs (snd (snd (chamfer_update_shape self calls)))
           = submitted_pairs calls @ get_edges self s" for calls
    by (simp add: chamfer_update_shape_child [OF assms] submitted_pairs_append
        submitted_pairs_adds)
  have l: "length (get_edges self s) =
           min (length (if edges (decl self) = [] then topology_edges s else edges (decl self)))
               (length (if faces (decl self) = [] then topology_faces s else faces (decl self)))"
    by (simp only: g length_zip)
  have e: "\<forall>e1 e2 e3 f1 f2. edges (decl self) = [e1, e2, e3] \<and> faces (decl self) = [f1, f2] \<longrightarrow>
             submitted_pairs (snd (snd (chamfer_update_shape self []))) = [(e1, f1), (e2, f2)]
             \<and> (e3 \<noteq> e1 \<and> e3 \<noteq> e2 \<longrightarrow>
                  e3 \<notin> fst ` set (submitted_pairs (snd (snd (chamfer_update_shape self [])))))"
    by (simp add: p g)
  from g r p l e show ?thesis by blast
qed

theorem chamfer_pairs_witness:
  "children chamfer_3_edges_2_faces = [box]
   \<and> fst (chamfer_update_shape chamfer_3_edges_2_faces []) = Returned
   \<and> submitted_pairs (snd (snd (chamfer_update_shape chamfer_3_edges_2_faces [])))
       = [(Edge 1, Face 1), (Edge 2, Face 2)]
   \<and> Edge 3 \<notin> fst ` set (submitted_pairs (snd (snd (chamfer_update_shape chamfer_3_edges_2_faces []))))"
proof -
  have c: "children chamfer_3_edges_2_faces = box # []"
    by (simp add: chamfer_3_edges_2_faces_def)
  note th = chamfer_pairs [OF c, of "[]"]
  have d: "edges (decl chamfer_3_edges_2_faces) = [Edge 1, Edge 2, Edge 3]
      \<and> faces (decl chamfer_3_edges_2_faces) = [Face 1, Face 2]"
    by (simp add: chamfer_3_edges_2_faces_def)
  have r: "fst (chamfer_update_shape chamfer_3_edges_2_faces []) = Returned"
    using th by blast
  have s: "submitted_pairs (snd (snd (chamfer_update_shape chamfer_3_edges_2_faces [])))
       = [(Edge 1, Face 1), (Edge 2, Face 2)]"
    using th d by blast
  have n: "Edge 3 \<notin> fst ` set (submitted_pairs (snd (snd (chamfer_update_shape chamfer_3_edges_2_faces []))))"
    by (simp add: s)
  from c r s n show ?thesis by simp
qed

text \<open>
  Claim C4.  A fillet without children raises the error that reports the missing child
  (the \<open>ValueError\<close> with the message below, the configuration error of the
  specification) before any kernel call: the kernel calls are those issued before, so no
  builder is constructed and no edge is added, and the proxy, its shape included, is
  unchanged.
\<close>

theorem fillet_without_child:
  assumes "children self = []"
  shows "fillet_update_shape self calls =
     (Raised (ValueError ''Fillet must have a child shape to operate on.''), self, calls)"
  using assms by (simp add: fillet_update_shape_def)

theorem fillet_without_child_witness:
  "children childless_fillet = []
   \<and> fillet_update_shape childless_fillet [Construct (Builder 7)] =
     (Raised (ValueError ''Fillet must have a child shape to operate on.''),
      childless_fillet, [Construct (Builder 7)])
   \<and> shape childless_fillet = Builder 7"
proof -
  have c: "children childless_fillet = []" by (simp add: childless_fillet_def)
  have s: "shape childless_fillet = Builder 7" by (simp add: childless_fillet_def)
  from fillet_without_child [OF c, of "[Construct (Builder 7)]"] c s show ?thesis by simp
qed

text \<open>
  Claim C10.  A chamfer without children fails with an attribute error: \<open>get_shape\<close>
  returns \<open>None\<close> and its \<open>shape\<close> attribute is read while the argument of the
  builder is evaluated, so no builder is constructed and the proxy is unchanged.  The error
  is not the structured one: a fillet without children raises the \<open>ValueError\<close> that
  reports the missing child.
\<close>

theorem chamfer_without_child:
  assumes "children self = []"
  shows "chamfer_update_shape self calls = (Raised (AttributeError ''shape''), self, calls)
       \<and> (\<forall>m. fst (chamfer_update_shape self calls) \<noteq> Raised (ValueError m))
       \<and> (\<forall>f. children f = [] \<longrightarrow>
             fst (fillet_update_shape f calls)
               = Raised (ValueError ''Fillet must have a child shape to operate on.''))"
  using assms by (simp add: chamfer_update_shape_def get_shape_def fillet_update_shape_def)

theorem chamfer_without_child_witness:
  "children childless_chamfer = []
   \<and> chamfer_update_shape childless_chamfer [Construct (Builder 7)] =
     (Raised (AttributeError ''shape''), childless_chamfer, [Construct (Builder 7)])
   \<and> fst (fillet_update_shape childless_fillet [Construct (Builder 7)])
       = Raised (ValueError ''Fillet must have a child shape to operate on.'')"
proof -
  have c: "children childless_chamfer = []" by (simp add: childless_chamfer_def)
  have f: "children childless_fillet = []" by (simp add: childless_fillet_def)
  from chamfer_without_child [OF c, of "[Construct (Builder 7)]"] c f show ?thesis by blast
qed

text \<open>
  Claim C6 at a failing input.  A thick solid without declared closing faces whose target
  has no face: \<open>get_faces\<close> returns \<open>None\<close>, and the loop over its result
  raises a type error where the claim has the rebuild return silently.
\<close>

theorem thick_solid_without_faces_raises:
  "closing_faces (decl thick_solid_of_wire) = []
   \<and> get_shape thick_solid_of_wire = Some wire
   \<and> topology_faces wire = []
   \<and> get_faces thick_solid_of_wire (Some wire) = Inr None
   \<and> thick_solid_update_shape thick_solid_of_wire [] =
       (Raised (TypeError ''NoneType object is not iterable''), thick_solid_of_wire, [])"
  by (simp add: thick_solid_of_wire_def wire_def get_shape_def get_faces_def
      thick_solid_update_shape_def)

text \<open>
  The test \<open>faces.IsEmpty()\<close> that guards the silent return is never true: whatever
  \<open>get_faces\<close> returns, it is not an empty list.
\<close>

lemma get_faces_never_empty: "get_faces self s \<noteq> Inr (Some [])"
  by (simp add: get_faces_def Let_def split: option.splits list.splits)

section \<open>Properties of deferred updates\<close>

lemma queue_update_simps [simp]:
  "update_count (queue_update c w) = (update_count w)(c := update_count w c + 1)"
  "timed_calls (queue_update c w) = timed_calls w @ [c]"
  "declared (queue_update c w) = declared w"
  "observers (queue_update c w) = observers w"
  "updates (queue_update c w) = updates w"
  "old_spline (queue_update c w) = old_spline w"
  "old_profile (queue_update c w) = old_profile w"
  "old_shape (queue_update c w) = old_shape w"
  by (simp_all add: queue_update_def)

lemma dequeue_update_frame [simp]:
  "timed_calls (dequeue_update c w) = timed_calls w"
  "declared (dequeue_update c w) = declared w"
  "update_count (dequeue_update c w) = (update_count w)(c := update_count w c - 1)"
  by (simp_all add: dequeue_update_def Let_def split: option.splits)

lemma dequeue_update_updates_of:
  "declared w self = Some d \<Longrightarrow>
   updates_of self (dequeue_update c w) =
     updates_of self w @ (if c = self \<and> update_count w self = 1 then [(self, d)] else [])"
  by (auto simp add: dequeue_update_def updates_of_def Let_def split: option.splits)

lemma run_timed_calls: "timed_calls (run k w) = drop k (timed_calls w)"
proof (induction k arbitrary: w)
  case 0
  then show ?case by simp
next
  case (Suc k)
  then show ?case by (cases "timed_calls w") simp_all
qed

lemma run_declared: "declared (run k w) = declared w"
proof (induction k arbitrary: w)
  case 0
  then show ?case by simp
next
  case (Suc k)
  then show ?case by (cases "timed_calls w") simp_all
qed

text \<open>
  The counter of a proxy is the number of its queued callbacks, whatever fires: so it is
  never negative.
\<close>

lemma run_pending_ok: "pending_ok self w \<Longrightarrow> pending_ok self (run k w)"
proof (induction k arbitrary: w)
  case 0
  then show ?case by simp
next
  case (Suc k)
  show ?case
  proof (cases "timed_calls w")
    case Nil
    then show ?thesis using Suc.prems by simp
  next
    case (Cons c cs)
    have "pending_ok self (dequeue_update c (w\<lparr>timed_calls := cs\<rparr>))"
      using Suc.prems Cons by (auto simp add: pending_ok_def)
    then show ?thesis using Suc.IH Cons by simp
  qed
qed

lemma run_updates_of:
  "pending_ok self w \<Longrightarrow> declared w self = Some d \<Longrightarrow>
   updates_of self (run k w) =
     updates_of self w @
       (if self \<in> set (take k (timed_calls w)) \<and> self \<notin> set (drop k (timed_calls w))
        then [(self, d)] else [])"
proof (induction k arbitrary: w)
  case 0
  then show ?case by simp
next
  case (Suc k)
  show ?case
  proof (cases "timed_calls w")
    case Nil
    then show ?thesis by simp
  next
    case (Cons c cs)
    let ?w = "dequeue_update c (w\<lparr>timed_calls := cs\<rparr>)"
    have ok: "pending_ok self ?w"
      using Suc.prems(1) Cons by (auto simp add: pending_ok_def)
    have d: "declared ?w self = Some d" using Suc.prems(2) by simp
    have tc: "timed_calls ?w = cs" by simp
    have one: "update_count (w\<lparr>timed_calls := cs\<rparr>) self = 1 \<longleftrightarrow> (c = self \<and> self \<notin> set cs) \<or> (c \<noteq> self \<and> count_list cs self = 1)"
      using Suc.prems(1) Cons by (auto simp add: pending_ok_def count_list_0_iff)
    have u: "updates_of self ?w =
        updates_of self w @ (if c = self \<and> self \<notin> set cs then [(self, d)] else [])"
      using dequeue_update_updates_of [of "w\<lparr>timed_calls := cs\<rparr>" self d c] Suc.prems(2) one
      by (auto simp add: updates_of_def)
    have split: "set cs = set (take k cs) \<union> set (drop k cs)"
      by (metis append_take_drop_id set_append)
    show ?thesis
      using Suc.IH [OF ok d] Cons u split by (auto simp add: tc)
  qed
qed

lemma burst_snoc: "burst self (vs @ [v]) w = set_parameter self v (burst self vs w)"
  by (simp add: burst_def)

lemma burst_facts:
  "timed_calls (burst self vs w) = timed_calls w @ replicate (length vs) self
   \<and> update_count (burst self vs w) self = update_count w self + int (length vs)
   \<and> updates (burst self vs w) = updates w
   \<and> declared (burst self vs w) self =
       (if vs = [] then declared w self else map_option (\<lambda>_. last vs) (declared w self))"
proof (induction vs rule: rev_induct)
  case Nil
  then show ?case by (simp add: burst_def)
next
  case (snoc v vs)
  then show ?case
    by (cases "declared w self")
      (simp_all add: burst_snoc set_parameter_def replicate_append_same)
qed

lemma count_list_replicate_same: "count_list (replicate n x) x = n"
  by (induction n) simp_all

text \<open>
  Claim C3.  A live, settled proxy (its counter is zero and none of its callbacks is
  queued) receives a burst of one or more parameter writes.  Each write adds one to the
  counter and queues one callback.  While the queued callbacks fire, the counter is
  never negative and \<open>update_shape\<close> of the proxy is not invoked before the last of
  them; once all have fired it has been invoked exactly once, reading the parameters of
  the last write, the counter is zero and no callback is left.
\<close>

theorem debounce_one_rebuild:
  assumes "declared w self = Some d0" and "update_count w self = 0"
    and "self \<notin> set (timed_calls w)" and "vs \<noteq> []"
  shows "timed_calls (burst self vs w) = timed_calls w @ replicate (length vs) self
       \<and> update_count (burst self vs w) self = int (length vs)
       \<and> (\<forall>k. 0 \<le> update_count (run k (burst self vs w)) self)
       \<and> (\<forall>k < length (timed_calls (burst self vs w)).
             updates_of self (run k (burst self vs w)) = updates_of self w)
       \<and> updates_of self (run (length (timed_calls (burst self vs w))) (burst self vs w))
           = updates_of self w @ [(self, last vs)]
       \<and> update_count (run (length (timed_calls (burst self vs w))) (burst self vs w)) self = 0
       \<and> timed_calls (run (length (timed_calls (burst self vs w))) (burst self vs w)) = []"
proof -
  let ?w = "burst self vs w"
  let ?q = "timed_calls ?w"
  note b = burst_facts [of self vs w]
  have q: "?q = timed_calls w @ replicate (length vs) self" using b by blast
  have c: "update_count ?w self = int (length vs)" using b assms(2) by simp
  have u: "updates_of self ?w = updates_of self w" using b by (simp add: updates_of_def)
  have d: "declared ?w self = Some (last vs)" using b assms(1,4) by simp
  have cnt: "count_list ?q self = length vs"
    using assms(3) by (simp add: q count_list_0_iff count_list_replicate_same)
  have ok: "pending_ok self ?w" by (simp add: pending_ok_def c cnt)
  have nonneg: "\<forall>k. 0 \<le> update_count (run k ?w) self"
  proof
    fix k
    have "pending_ok self (run k ?w)" using ok by (rule run_pending_ok)
    then show "0 \<le> update_count (run k ?w) self" by (simp add: pending_ok_def)
  qed
  have lastq: "last ?q = self" and ne: "?q \<noteq> []"
    using assms(4) by (simp_all add: q)
  have before: "\<forall>k < length ?q. updates_of self (run k ?w) = updates_of self w"
  proof (intro allI impI)
    fix k assume k: "k < length ?q"
    then have "drop k ?q \<noteq> []" by simp
    then have "last (drop k ?q) = self" using k lastq by simp
    then have "self \<in> set (drop k ?q)"
      using \<open>drop k ?q \<noteq> []\<close> last_in_set by metis
    then show "updates_of self (run k ?w) = updates_of self w"
      by (simp only: run_updates_of [OF ok d] u if_False simp_thms append_Nil2)
  qed
  have mem: "self \<in> set ?q" using ne lastq last_in_set by metis
  have atend: "updates_of self (run (length ?q) ?w) = updates_of self w @ [(self, last vs)]"
    using mem by (simp add: run_updates_of [OF ok d] u)
  have fin: "timed_calls (run (length ?q) ?w) = []" by (simp add: run_timed_calls)
  have "pending_ok self (run (length ?q) ?w)" using ok by (rule run_pending_ok)
  then have zero: "update_count (run (length ?q) ?w) self = 0"
    by (simp add: pending_ok_def fin)
  from q c nonneg before atend zero fin show ?thesis by blast
qed

theorem debounce_one_rebuild_witness:
  "declared settled_world 0 = Some 0 \<and> update_count settled_world 0 = 0
   \<and> 0 \<notin> set (timed_calls settled_world)
   \<and> update_count (burst 0 [1, 2, 3, 4, 5, 6, 7, 8, 9, 10] settled_world) 0 = 10
   \<and> updates_of 0 (run 10 (burst 0 [1, 2, 3, 4, 5, 6, 7, 8, 9, 10] settled_world)) = [(0, 10)]
   \<and> update_count (run 10 (burst 0 [1, 2, 3, 4, 5, 6, 7, 8, 9, 10] settled_world)) 0 = 0"
proof -
  let ?vs = "[1, 2, 3, 4, 5, 6, 7, 8, 9, 10] :: int list"
  have h1: "declared settled_world 0 = Some 0" and h2: "update_count settled_world 0 = 0"
    and h3: "0 \<notin> set (timed_calls settled_world)" and h4: "?vs \<noteq> []"
    by (simp_all add: settled_world_def)
  note th = debounce_one_rebuild [OF h1 h2 h3 h4]
  have tc: "timed_calls settled_world = []" by (simp add: settled_world_def)
  have n: "length ?vs = 10" by simp
  have "timed_calls (burst 0 ?vs settled_world)
      = timed_calls settled_world @ replicate (length ?vs) 0"
    using th by blast
  then have len: "length (timed_calls (burst 0 ?vs settled_world)) = 10"
    by (simp only: tc append_Nil length_replicate n)
  have u0: "updates_of 0 settled_world = []" by (simp add: updates_of_def settled_world_def)
  have "update_count (burst 0 ?vs settled_world) 0 = int (length ?vs)" using th by blast
  then have a: "update_count (burst 0 ?vs settled_world) 0 = 10" by simp
  have "updates_of 0 (run (length (timed_calls (burst 0 ?vs settled_world)))
          (burst 0 ?vs settled_world)) = updates_of 0 settled_world @ [(0, last ?vs)]"
    using th by blast
  then have b: "updates_of 0 (run 10 (burst 0 ?vs settled_world)) = [(0, 10)]"
    by (simp only: len u0) simp
  have "update_count (run (length (timed_calls (burst 0 ?vs settled_world)))
          (burst 0 ?vs settled_world)) 0 = 0"
    using th by blast
  then have c: "update_count (run 10 (burst 0 ?vs settled_world)) 0 = 0"
    by (simp only: len)
  from h1 h2 h3 a b c show ?thesis by blast
qed

section \<open>Properties of the observers\<close>

lemma observe_simps [simp]:
  "observers (observe p c w) =
     (observers w)(p := (if c \<in> set (observers w p) then observers w p else observers w p @ [c]))"
  "update_count (observe p c w) = update_count w"
  "timed_calls (observe p c w) = timed_calls w"
  "updates (observe p c w) = updates w"
  "old_spline (observe p c w) = old_spline w"
  "old_profile (observe p c w) = old_profile w"
  "old_shape (observe p c w) = old_shape w"
  by (simp_all add: observe_def)

lemma unobserve_simps [simp]:
  "observers (unobserve p c w) = (observers w)(p := removeAll c (observers w p))"
  "update_count (unobserve p c w) = update_count w"
  "timed_calls (unobserve p c w) = timed_calls w"
  "updates (unobserve p c w) = updates w"
  "old_spline (unobserve p c w) = old_spline w"
  "old_profile (unobserve p c w) = old_profile w"
  "old_shape (unobserve p c w) = old_shape w"
  by (simp_all add: unobserve_def)

lemma queue_all:
  "update_count (foldl (\<lambda>w c. queue_update c w) w cs) x = update_count w x + int (count_list cs x)
   \<and> timed_calls (foldl (\<lambda>w c. queue_update c w) w cs) = timed_calls w @ cs
   \<and> observers (foldl (\<lambda>w c. queue_update c w) w cs) = observers w"
  by (induction cs arbitrary: w) simp_all

lemma shape_changed_update_count:
  "update_count (shape_changed p w) x = update_count w x + int (count_list (observers w p) x)"
  by (simp add: shape_changed_def queue_all)

lemma shape_changed_timed_calls:
  "timed_calls (shape_changed p w) = timed_calls w @ observers w p"
  by (simp add: shape_changed_def queue_all)

lemma observed_observe: "observed c (observe p c w) = insert p (observed c w)"
  by (auto simp add: observed_def)

lemma observed_unobserve: "observed c (unobserve p c w) = observed c w - {p}"
  by (auto simp add: observed_def)

lemma observed_queue_update [simp]: "observed c (queue_update x w) = observed c w"
  by (simp add: observed_def)

lemma observed_old_spline_update [simp]: "observed c (w\<lparr>old_spline := f\<rparr>) = observed c w"
  by (simp add: observed_def)

lemma observed_old_profile_update [simp]: "observed c (w\<lparr>old_profile := f\<rparr>) = observed c w"
  by (simp add: observed_def)

lemma set_spline_observed:
  "observed self (set_spline self Y w) = insert Y (observed self w - set_option (old_spline w self))"
  by (cases "old_spline w self")
    (simp_all add: set_spline_def Let_def observed_observe observed_unobserve)

lemma set_profile_observed:
  "observed self (set_profile self Y w) = insert Y (observed self w - set_option (old_profile w self))"
  by (cases "old_profile w self")
    (simp_all add: set_profile_def Let_def observed_observe observed_unobserve)

lemma set_spline_fields:
  "old_spline (set_spline self Y w) = (old_spline w)(self \<mapsto> Y)"
  "old_profile (set_spline self Y w) = old_profile w"
  "update_count (set_spline self Y w) = (update_count w)(self := update_count w self + 1)"
  "timed_calls (set_spline self Y w) = timed_calls w @ [self]"
  by (cases "old_spline w self"; simp add: set_spline_def Let_def)+

lemma set_profile_fields:
  "old_profile (set_profile self Y w) = (old_profile w)(self \<mapsto> Y)"
  "old_spline (set_profile self Y w) = old_spline w"
  "update_count (set_profile self Y w) = (update_count w)(self := update_count w self + 1)"
  "timed_calls (set_profile self Y w) = timed_calls w @ [self]"
  by (cases "old_profile w self"; simp add: set_profile_def Let_def)+

lemma not_observed_count: "p \<notin> observed c w \<Longrightarrow> count_list (observers w p) c = 0"
  by (simp add: observed_def count_list_0_iff)

lemma observed_count: "p \<in> observed c w \<Longrightarrow> 0 < count_list (observers w p) c"
  using count_list_0_iff [of "observers w p" c] by (auto simp add: observed_def)

text \<open>
  From a pipe that observes nothing but the spline it remembers, any sequence of
  rebindings of the spline leaves it observing exactly the last one.
\<close>

lemma set_spline_run_observed:
  "ys \<noteq> [] \<Longrightarrow> observed self w \<subseteq> set_option (old_spline w self) \<Longrightarrow>
   observed self (foldl (\<lambda>w y. set_spline self y w) w ys) = {last ys}
   \<and> old_spline (foldl (\<lambda>w y. set_spline self y w) w ys) self = Some (last ys)"
proof (induction ys arbitrary: w)
  case Nil
  then show ?case by simp
next
  case (Cons y ys)
  let ?w = "set_spline self y w"
  have o: "observed self ?w = {y}"
    using Cons.prems(2) by (auto simp add: set_spline_observed)
  have s: "old_spline ?w self = Some y" by (simp add: set_spline_fields)
  show ?case
  proof (cases "ys = []")
    case True
    then show ?thesis using o s by simp
  next
    case False
    have "observed self ?w \<subseteq> set_option (old_spline ?w self)" using o s by simp
    from Cons.IH [OF False this] False show ?thesis by simp
  qed
qed

lemma set_profile_run_observed:
  "ys \<noteq> [] \<Longrightarrow> observed self w \<subseteq> set_option (old_profile w self) \<Longrightarrow>
   observed self (foldl (\<lambda>w y. set_profile self y w) w ys) = {last ys}
   \<and> old_profile (foldl (\<lambda>w y. set_profile self y w) w ys) self = Some (last ys)"
proof (induction ys arbitrary: w)
  case Nil
  then show ?case by simp
next
  case (Cons y ys)
  let ?w = "set_profile self y w"
  have o: "observed self ?w = {y}"
    using Cons.prems(2) by (auto simp add: set_profile_observed)
  have s: "old_profile ?w self = Some y" by (simp add: set_profile_fields)
  show ?case
  proof (cases "ys = []")
    case True
    then show ?thesis using o s by simp
  next
    case False
    have "observed self ?w \<subseteq> set_option (old_profile ?w self)" using o s by simp
    from Cons.IH [OF False this] False show ?thesis by simp
  qed
qed


lemma explicit_refs_set_spline:
  "explicit_refs self (set_spline self Y w) = insert Y (set_option (old_profile w self))"
  by (simp add: explicit_refs_def set_spline_fields)

lemma explicit_refs_set_profile:
  "explicit_refs self (set_profile self Y w) = insert Y (set_option (old_spline w self))"
  by (simp add: explicit_refs_def set_profile_fields)

text \<open>
  What a rebinding does.  Rebinding the spline of a pipe from \<open>X\<close> to \<open>Y\<close>
  unsubscribes the pipe from \<open>X\<close> and then subscribes it to \<open>Y\<close>: it remembers
  \<open>Y\<close>, it observes \<open>Y\<close> and, of what it observed, everything but \<open>X\<close>.
  Afterwards a change of the shape of \<open>X\<close> (if \<open>X\<close> is not \<open>Y\<close>) neither counts
  nor queues an update of the pipe, and a change of the shape of \<open>Y\<close> does both.  If the
  pipe observed only shapes it references it still does; if it observed exactly those, it
  still does provided \<open>X\<close> is not its profile as well.  The same holds for the profile.
\<close>

theorem pipe_rebind:
  "(old_spline w self = Some X \<longrightarrow>
      old_spline (set_spline self Y w) self = Some Y
    \<and> observed self (set_spline self Y w) = insert Y (observed self w - {X})
    \<and> (X \<noteq> Y \<longrightarrow>
          update_count (shape_changed X (set_spline self Y w)) self
            = update_count (set_spline self Y w) self
        \<and> count_list (timed_calls (shape_changed X (set_spline self Y w))) self
            = count_list (timed_calls (set_spline self Y w)) self)
    \<and> update_count (set_spline self Y w) self
        < update_count (shape_changed Y (set_spline self Y w)) self
    \<and> count_list (timed_calls (set_spline self Y w)) self
        < count_list (timed_calls (shape_changed Y (set_spline self Y w))) self
    \<and> (observed self w \<subseteq> explicit_refs self w \<longrightarrow>
          observed self (set_spline self Y w) \<subseteq> explicit_refs self (set_spline self Y w))
    \<and> (observed self w = explicit_refs self w \<and> old_profile w self \<noteq> Some X \<longrightarrow>
          observed self (set_spline self Y w) = explicit_refs self (set_spline self Y w)))
   \<and> (old_profile w self = Some P \<longrightarrow>
      old_profile (set_profile self Q w) self = Some Q
    \<and> observed self (set_profile self Q w) = insert Q (observed self w - {P})
    \<and> (P \<noteq> Q \<longrightarrow>
          update_count (shape_changed P (set_profile self Q w)) self
            = update_count (set_profile self Q w) self
        \<and> count_list (timed_calls (shape_changed P (set_profile self Q w))) self
            = count_list (timed_calls (set_profile self Q w)) self)
    \<and> update_count (set_profile self Q w) self
        < update_count (shape_changed Q (set_profile self Q w)) self
    \<and> count_list (timed_calls (set_profile self Q w)) self
        < count_list (timed_calls (shape_changed Q (set_profile self Q w))) self
    \<and> (observed self w \<subseteq> explicit_refs self w \<longrightarrow>
          observed self (set_profile self Q w) \<subseteq> explicit_refs self (set_profile self Q w))
    \<and> (observed self w = explicit_refs self w \<and> old_spline w self \<noteq> Some P \<longrightarrow>
          observed self (set_profile self Q w) = explicit_refs self (set_profile self Q w)))"
proof -
  have spline: "old_spline (set_spline self Y w) self = Some Y
    \<and> observed self (set_spline self Y w) = insert Y (observed self w - {X})
    \<and> (X \<noteq> Y \<longrightarrow>
          update_count (shape_changed X (set_spline self Y w)) self
            = update_count (set_spline self Y w) self
        \<and> count_list (timed_calls (shape_changed X (set_spline self Y w))) self
            = count_list (timed_calls (set_spline self Y w)) self)
    \<and> update_count (set_spline self Y w) self
        < update_count (shape_changed Y (set_spline self Y w)) self
    \<and> count_list (timed_calls (set_spline self Y w)) self
        < count_list (timed_calls (shape_changed Y (set_spline self Y w))) self
    \<and> (observed self w \<subseteq> explicit_refs self w \<longrightarrow>
          observed self (set_spline self Y w) \<subseteq> explicit_refs self (set_spline self Y w))
    \<and> (observed self w = explicit_refs self w \<and> old_profile w self \<noteq> Some X \<longrightarrow>
          observed self (set_spline self Y w) = explicit_refs self (set_spline self Y w))"
    if old: "old_spline w self = Some X"
  proof -
    let ?w = "set_spline self Y w"
    have o: "observed self ?w = insert Y (observed self w - {X})"
      by (simp add: set_spline_observed old)
    have x: "count_list (observers ?w X) self = 0" if "X \<noteq> Y"
      by (rule not_observed_count) (use that in \<open>simp add: o\<close>)
    have y: "0 < count_list (observers ?w Y) self"
      by (rule observed_count) (simp add: o)
    have r: "explicit_refs self w = insert X (set_option (old_profile w self))"
      by (simp add: explicit_refs_def old)
    have sub: "observed self w \<subseteq> explicit_refs self w \<longrightarrow>
          observed self ?w \<subseteq> explicit_refs self ?w"
      by (auto simp add: o r explicit_refs_set_spline)
    have ex: "observed self w = explicit_refs self w \<and> old_profile w self \<noteq> Some X \<longrightarrow>
          observed self ?w = explicit_refs self ?w"
      by (cases "old_profile w self") (auto simp add: o r explicit_refs_set_spline)
    have rest: "old_spline ?w self = Some Y
      \<and> (X \<noteq> Y \<longrightarrow>
          update_count (shape_changed X ?w) self = update_count ?w self
        \<and> count_list (timed_calls (shape_changed X ?w)) self = count_list (timed_calls ?w) self)
      \<and> update_count ?w self < update_count (shape_changed Y ?w) self
      \<and> count_list (timed_calls ?w) self < count_list (timed_calls (shape_changed Y ?w)) self"
      using x y
      by (auto simp add: set_spline_fields(1) shape_changed_update_count
          shape_changed_timed_calls)
    from o sub ex rest show ?thesis by blast
  qed
  have profile: "old_profile (set_profile self Q w) self = Some Q
    \<and> observed self (set_profile self Q w) = insert Q (observed self w - {P})
    \<and> (P \<noteq> Q \<longrightarrow>
          update_count (shape_changed P (set_profile self Q w)) self
            = update_count (set_profile self Q w) self
        \<and> count_list (timed_calls (shape_changed P (set_profile self Q w))) self
            = count_list (timed_calls (set_profile self Q w)) self)
    \<and> update_count (set_profile self Q w) self
        < update_count (shape_changed Q (set_profile self Q w)) self
    \<and> count_list (timed_calls (set_profile self Q w)) self
        < count_list (timed_calls (shape_changed Q (set_profile self Q w))) self
    \<and> (observed self w \<subseteq> explicit_refs self w \<longrightarrow>
          observed self (set_profile self Q w) \<subseteq> explicit_refs self (set_profile self Q w))
    \<and> (observed self w = explicit_refs self w \<and> old_spline w self \<noteq> Some P \<longrightarrow>
          observed self (set_profile self Q w) = explicit_refs self (set_profile self Q w))"
    if old: "old_profile w self = Some P"
  proof -
    let ?w = "set_profile self Q w"
    have o: "observed self ?w = insert Q (observed self w - {P})"
      by (simp add: set_profile_observed old)
    have x: "count_list (observers ?w P) self = 0" if "P \<noteq> Q"
      by (rule not_observed_count) (use that in \<open>simp add: o\<close>)
    have y: "0 < count_list (observers ?w Q) self"
      by (rule observed_count) (simp add: o)
    have r: "explicit_refs self w = insert P (set_option (old_spline w self))"
      by (auto simp add: explicit_refs_def old)
    have sub: "observed self w \<subseteq> explicit_refs self w \<longrightarrow>
          observed self ?w \<subseteq> explicit_refs self ?w"
      by (auto simp add: o r explicit_refs_set_profile)
    have ex: "observed self w = explicit_refs self w \<and> old_spline w self \<noteq> Some P \<longrightarrow>
          observed self ?w = explicit_refs self ?w"
      by (cases "old_spline w self") (auto simp add: o r explicit_refs_set_profile)
    have rest: "old_profile ?w self = Some Q
      \<and> (P \<noteq> Q \<longrightarrow>
          update_count (shape_changed P ?w) self = update_count ?w self
        \<and> count_list (timed_calls (shape_changed P ?w)) self = count_list (timed_calls ?w) self)
      \<and> update_count ?w self < update_count (shape_changed Q ?w) self
      \<and> count_list (timed_calls ?w) self < count_list (timed_calls (shape_changed Q ?w)) self"
      using x y
      by (auto simp add: set_profile_fields(1) shape_changed_update_count
          shape_changed_timed_calls)
    from o sub ex rest show ?thesis by blast
  qed
  from spline profile show ?thesis by blast
qed

lemma observed_pipe_world: "observed 0 pipe_world = {1, 3}"
  by (auto simp add: observed_def pipe_world_def split: if_splits)

theorem pipe_rebind_witness:
  "old_spline pipe_world 0 = Some 1 \<and> old_profile pipe_world 0 = Some 3
   \<and> observed 0 pipe_world = explicit_refs 0 pipe_world
   \<and> old_spline (set_spline 0 2 pipe_world) 0 = Some 2
   \<and> observed 0 (set_spline 0 2 pipe_world) = {2, 3}
   \<and> observed 0 (set_spline 0 2 pipe_world) = explicit_refs 0 (set_spline 0 2 pipe_world)
   \<and> update_count (shape_changed 1 (set_spline 0 2 pipe_world)) 0
       = update_count (set_spline 0 2 pipe_world) 0
   \<and> update_count (set_spline 0 2 pipe_world) 0
       < update_count (shape_changed 2 (set_spline 0 2 pipe_world)) 0
   \<and> old_profile (set_profile 0 4 pipe_world) 0 = Some 4
   \<and> observed 0 (set_profile 0 4 pipe_world) = {1, 4}
   \<and> update_count (shape_changed 3 (set_profile 0 4 pipe_world)) 0
       = update_count (set_profile 0 4 pipe_world) 0
   \<and> update_count (set_profile 0 4 pipe_world) 0
       < update_count (shape_changed 4 (set_profile 0 4 pipe_world)) 0"
proof -
  have s: "old_spline pipe_world 0 = Some 1" and p: "old_profile pipe_world 0 = Some 3"
    by (simp_all add: pipe_world_def)
  have e: "observed 0 pipe_world = explicit_refs 0 pipe_world"
    by (auto simp add: observed_pipe_world explicit_refs_def s p)
  have n: "old_profile pipe_world 0 \<noteq> Some 1" "old_spline pipe_world 0 \<noteq> Some 3"
    "(1::nat) \<noteq> 2" "(3::nat) \<noteq> 4"
    by (simp_all add: s p)
  note th = pipe_rebind [of pipe_world 0 1 2 3 4]
  have o2: "insert 2 (observed 0 pipe_world - {1}) = {2, 3::nat}"
    "insert 4 (observed 0 pipe_world - {3}) = {1, 4::nat}"
    by (auto simp add: observed_pipe_world)
  from th s p e n o2 show ?thesis by metis
qed

lemma observed_settled_world: "observed 0 settled_world = {}"
  by (simp add: observed_def settled_world_def)

lemma bound_pipe_facts:
  "old_spline bound_pipe 0 = Some 1" "old_profile bound_pipe 0 = Some 3"
  "observed 0 bound_pipe = {1, 3}"
proof -
  let ?w = "set_spline 0 1 settled_world"
  have s0: "old_spline settled_world 0 = None" and p0: "old_profile settled_world 0 = None"
    by (simp_all add: settled_world_def)
  have o1: "observed 0 ?w = {1}"
    by (simp add: set_spline_observed s0 observed_settled_world del: One_nat_def)
  have p1: "old_profile ?w 0 = None" by (simp add: set_spline_fields p0 del: One_nat_def)
  show "old_spline bound_pipe 0 = Some 1"
    by (simp add: bound_pipe_def set_profile_fields set_spline_fields)
  show "old_profile bound_pipe 0 = Some 3"
    by (simp add: bound_pipe_def set_profile_fields)
  show "observed 0 bound_pipe = {1, 3}"
    by (auto simp add: bound_pipe_def set_profile_observed p1 o1 simp del: One_nat_def)
qed

text \<open>
  Claim C7 at a failing input.  A pipe is bound to shape 1 as its spline and to shape 3 as
  its profile, and observes both.  The two references are then exchanged, the spline
  first.  Both setters subscribe the same callback, so while shape 3 is spline and
  profile it holds one subscription, and rebinding the profile removes it: the pipe
  references shapes 1 and 3 and observes shape 1 only, and a change of the shape of its
  spline, shape 3, neither counts nor queues an update.
\<close>

theorem pipe_swap_loses_subscription:
  "explicit_refs 0 bound_pipe = {1, 3} \<and> observed 0 bound_pipe = {1, 3}
   \<and> old_spline swapped_pipe 0 = Some 3 \<and> old_profile swapped_pipe 0 = Some 1
   \<and> explicit_refs 0 swapped_pipe = {1, 3}
   \<and> observed 0 swapped_pipe = {1}
   \<and> update_count (shape_changed 3 swapped_pipe) 0 = update_count swapped_pipe 0
   \<and> count_list (timed_calls (shape_changed 3 swapped_pipe)) 0
       = count_list (timed_calls swapped_pipe) 0"
proof -
  let ?m = "set_spline 0 3 bound_pipe"
  have r0: "explicit_refs 0 bound_pipe = {1, 3}"
    by (auto simp add: explicit_refs_def bound_pipe_facts)
  have om: "observed 0 ?m = {3}"
    by (auto simp add: set_spline_observed bound_pipe_facts simp del: One_nat_def)
  have pm: "old_profile ?m 0 = Some 3" and sm: "old_spline ?m 0 = Some 3"
    by (simp_all add: set_spline_fields bound_pipe_facts)
  have s: "old_spline swapped_pipe 0 = Some 3" and p: "old_profile swapped_pipe 0 = Some 1"
    by (simp_all add: swapped_pipe_def set_profile_fields sm del: One_nat_def)
  have r: "explicit_refs 0 swapped_pipe = {1, 3}"
    by (auto simp add: explicit_refs_def s p)
  have o: "observed 0 swapped_pipe = {1}"
    by (auto simp add: swapped_pipe_def set_profile_observed pm om simp del: One_nat_def)
  have n: "count_list (observers swapped_pipe 3) 0 = 0"
    by (rule not_observed_count) (simp add: o)
  have u: "update_count (shape_changed 3 swapped_pipe) 0 = update_count swapped_pipe 0"
    by (simp add: shape_changed_update_count n)
  have t: "count_list (timed_calls (shape_changed 3 swapped_pipe)) 0
       = count_list (timed_calls swapped_pipe) 0"
    by (simp add: shape_changed_timed_calls n)
  from r0 bound_pipe_facts(3) s p r o u t show ?thesis by blast
qed

lemma transform_set_shape_fields:
  "update_count (transform_set_shape self Y w) = update_count w"
  "timed_calls (transform_set_shape self Y w) = timed_calls w"
  "updates (transform_set_shape self Y w) = updates w"
  "old_shape (transform_set_shape self Y w) = (old_shape w)(self \<mapsto> Y)"
  by (cases "old_shape w self"; simp add: transform_set_shape_def Let_def)+


text \<open>
  Claim C9 at a failing input.  Rebinding the shape of a transform from shape 1 to shape 2
  moves the subscription and nothing else: the counter is not incremented, no callback is
  queued, and however many callbacks fire afterwards \<open>update_shape\<close> is not
  invoked.  Rebinding the spline of a pipe does count and queue an update.
\<close>

theorem transform_set_shape_does_not_notify:
  "old_shape transform_world 0 = Some 1
   \<and> old_shape (transform_set_shape 0 2 transform_world) 0 = Some 2
   \<and> observed 0 (transform_set_shape 0 2 transform_world) = {2}
   \<and> update_count (transform_set_shape 0 2 transform_world) 0 = update_count transform_world 0
   \<and> update_count (transform_set_shape 0 2 transform_world) 0 = 0
   \<and> timed_calls (transform_set_shape 0 2 transform_world) = []
   \<and> updates (run k (transform_set_shape 0 2 transform_world)) = []
   \<and> update_count (set_spline 0 2 pipe_world) 0 = 1
   \<and> timed_calls (set_spline 0 2 pipe_world) = [0]"
proof -
  have o: "observed 0 (transform_set_shape 0 2 transform_world) = {2}"
    by (auto simp add: observed_def transform_set_shape_def transform_world_def split: if_splits)
  have t: "timed_calls (transform_set_shape 0 2 transform_world) = []"
    by (simp add: transform_set_shape_fields transform_world_def)
  have r: "run k (transform_set_shape 0 2 transform_world) = transform_set_shape 0 2 transform_world"
    using t by (cases k) simp_all
  have u: "updates (run k (transform_set_shape 0 2 transform_world)) = []"
    by (simp add: r transform_set_shape_fields) (simp add: transform_world_def)
  have rest: "old_shape transform_world 0 = Some 1
   \<and> old_shape (transform_set_shape 0 2 transform_world) 0 = Some 2
   \<and> update_count (transform_set_shape 0 2 transform_world) 0 = update_count transform_world 0
   \<and> update_count (transform_set_shape 0 2 transform_world) 0 = 0
   \<and> update_count (set_spline 0 2 pipe_world) 0 = 1
   \<and> timed_calls (set_spline 0 2 pipe_world) = [0]"
    by (simp add: transform_set_shape_fields set_spline_fields)
      (simp add: transform_world_def pipe_world_def)
  from o t u rest show ?thesis by blast
qed

section \<open>Properties of the composite transformation\<close>

lemma mat_XYZ_identity [simp]: "mat_XYZ identity_Mat v = v"
  by (cases v) (simp add: identity_Mat_def)

lemma mat_mat_identity [simp]: "mat_mat m identity_Mat = m" "mat_mat identity_Mat m = m"
  by (cases m rule: prod_cases3; auto simp add: identity_Mat_def Let_def)+

lemma add_XYZ_zero [simp]: "add_XYZ v (0, 0, 0) = v" "add_XYZ (0, 0, 0) v = v"
  by (cases v; simp)+

lemma Transforms_Multiply: "Transforms (Multiply a b) p = Transforms a (Transforms b p)"
proof -
  obtain a11 a12 a13 a21 a22 a23 a31 a32 a33
    where a: "matrix a = ((a11, a12, a13), (a21, a22, a23), (a31, a32, a33))"
    by (metis prod_cases3)
  obtain b11 b12 b13 b21 b22 b23 b31 b32 b33
    where b: "matrix b = ((b11, b12, b13), (b21, b22, b23), (b31, b32, b33))"
    by (metis prod_cases3)
  obtain u v w where la: "loc a = (u, v, w)" by (metis prod_cases3)
  obtain u' v' w' where lb: "loc b = (u', v', w')" by (metis prod_cases3)
  obtain x y z where p: "p = (x, y, z)" by (metis prod_cases3)
  show ?thesis
    by (simp add: Transforms_def Multiply_def a b la lb p Let_def algebra_simps)
qed

lemma Transforms_identity [simp]: "Transforms identity_Trsf p = p"
  by (simp add: Transforms_def identity_Trsf_def)

lemma Transforms_foldl:
  "Transforms (foldl Multiply m ts) p = Transforms m (foldr Transforms ts p)"
  by (induction ts arbitrary: m) (simp_all add: Transforms_Multiply)

lemma transform_loop_fold:
  "list_all2 (\<lambda>x t. elementary x = Inr t) xs ts \<Longrightarrow>
   transform_loop m xs = Inr (foldl Multiply m ts)"
  by (induction xs ts arbitrary: m rule: list_all2_induct) simp_all

lemma gp_Dir_z [simp]: "gp_Dir 0 0 1 = Inr (0, 0, 1)"
  by (simp add: gp_Dir_def)

lemma rotation_z:
  "elementary (Rotate (0, 0, 0) (0, 0, 1) a) =
     Inr \<lparr>matrix = ((cos a, - sin a, 0), (sin a, cos a, 0), (0, 0, 1)), loc = (0, 0, 0)\<rparr>"
  by (simp add: about_def Let_def)

lemma translate_then_rotate_z:
  "get_transform (transform_of [Translate x y z, Rotate (0, 0, 0) (0, 0, 1) a]) =
     Inr \<lparr>matrix = ((cos a, - sin a, 0), (sin a, cos a, 0), (0, 0, 1)), loc = (x, y, z)\<rparr>"
  by (simp add: get_transform_def transform_of_def about_def Let_def Multiply_def
      identity_Trsf_def SetTranslation_def identity_Mat_def)

lemma rotate_z_then_translate:
  "get_transform (transform_of [Rotate (0, 0, 0) (0, 0, 1) a, Translate x y z]) =
     Inr \<lparr>matrix = ((cos a, - sin a, 0), (sin a, cos a, 0), (0, 0, 1)),
          loc = (cos a * x - sin a * y, sin a * x + cos a * y, z)\<rparr>"
  by (simp add: get_transform_def transform_of_def about_def Let_def Multiply_def
      identity_Trsf_def SetTranslation_def identity_Mat_def)

lemma cos_one_sin_zero: "cos (a::real) = 1 \<Longrightarrow> sin a = 0"
  using sin_cos_squared_add [of a] by simp


text \<open>
  Claim C8, as amended.  When the kernel accepts every declared operation, \<open>ts\<close>
  being their elementary matrices in declared order, the composite is the fold
  \<open>M = I; M = M * t\<close> over them by multiplication on the right, so that it applies
  the last declared operation first.  The order matters in general, not for every pair:
  the translation by \<open>(1, 0, 0)\<close> and the rotation about the z axis by an angle
  \<open>a\<close> give different composites in the two orders exactly when \<open>a\<close> is not a
  whole number of turns (\<open>cos a\<close> is not 1).
\<close>

theorem transform_composite:
  "(list_all2 (\<lambda>x t. elementary x = Inr t) xs ts \<longrightarrow>
      get_transform (transform_of xs) = Inr (foldl Multiply identity_Trsf ts)
    \<and> (\<forall>p. Transforms (foldl Multiply identity_Trsf ts) p = foldr Transforms ts p))
   \<and> ((get_transform (transform_of [Translate 1 0 0, Rotate (0, 0, 0) (0, 0, 1) a])
        \<noteq> get_transform (transform_of [Rotate (0, 0, 0) (0, 0, 1) a, Translate 1 0 0]))
       = (cos a \<noteq> 1))"
proof -
  have fold: "get_transform (transform_of xs) = Inr (foldl Multiply identity_Trsf ts)
    \<and> (\<forall>p. Transforms (foldl Multiply identity_Trsf ts) p = foldr Transforms ts p)"
    if "list_all2 (\<lambda>x t. elementary x = Inr t) xs ts"
    using transform_loop_fold [OF that, of identity_Trsf]
    by (simp add: get_transform_def transform_of_def Transforms_foldl)
  have swap: "(get_transform (transform_of [Translate 1 0 0, Rotate (0, 0, 0) (0, 0, 1) a])
        \<noteq> get_transform (transform_of [Rotate (0, 0, 0) (0, 0, 1) a, Translate 1 0 0]))
       = (cos a \<noteq> 1)"
    using cos_one_sin_zero [of a]
    by (auto simp add: translate_then_rotate_z rotate_z_then_translate)
  from fold swap show ?thesis by blast
qed

theorem transform_composite_witness:
  "list_all2 (\<lambda>x t. elementary x = Inr t) [Translate 1 0 0, quarter_turn_z]
     [\<lparr>matrix = ((1, 0, 0), (0, 1, 0), (0, 0, 1)), loc = (1, 0, 0)\<rparr>,
      \<lparr>matrix = ((0, - 1, 0), (1, 0, 0), (0, 0, 1)), loc = (0, 0, 0)\<rparr>]
   \<and> get_transform (transform_of [Translate 1 0 0, quarter_turn_z]) =
       Inr (Multiply (Multiply identity_Trsf
              \<lparr>matrix = ((1, 0, 0), (0, 1, 0), (0, 0, 1)), loc = (1, 0, 0)\<rparr>)
              \<lparr>matrix = ((0, - 1, 0), (1, 0, 0), (0, 0, 1)), loc = (0, 0, 0)\<rparr>)
   \<and> get_transform (transform_of [Translate 1 0 0, Rotate (0, 0, 0) (0, 0, 1) (pi / 2)])
       \<noteq> get_transform (transform_of [Rotate (0, 0, 0) (0, 0, 1) (pi / 2), Translate 1 0 0])"
proof -
  let ?T = "\<lparr>matrix = ((1, 0, 0), (0, 1, 0), (0, 0, 1)), loc = (1, 0, 0)\<rparr> :: gp_Trsf"
  let ?R = "\<lparr>matrix = ((0, - 1, 0), (1, 0, 0), (0, 0, 1)), loc = (0, 0, 0)\<rparr> :: gp_Trsf"
  have h: "list_all2 (\<lambda>x t. elementary x = Inr t) [Translate 1 0 0, quarter_turn_z] [?T, ?R]"
    by (simp add: quarter_turn_z_def rotation_z SetTranslation_def identity_Mat_def
        del: elementary.simps(2))
  note th = transform_composite [of "[Translate 1 0 0, quarter_turn_z]" "[?T, ?R]" "pi / 2"]
  have a: "get_transform (transform_of [Translate 1 0 0, quarter_turn_z]) =
       Inr (Multiply (Multiply identity_Trsf ?T) ?R)"
    using th h by simp
  have c: "cos (pi / 2) \<noteq> (1::real)" by simp
  have b: "get_transform (transform_of [Translate 1 0 0, Rotate (0, 0, 0) (0, 0, 1) (pi / 2)])
       \<noteq> get_transform (transform_of [Rotate (0, 0, 0) (0, 0, 1) (pi / 2), Translate 1 0 0])"
    using th c by blast
  from h a b show ?thesis by blast
qed

text \<open>
  The claim as stated fails: a translation along the axis of a rotation commutes with it.
  The translation by \<open>(0, 0, 1)\<close> and the quarter turn about the z axis, an angle that
  is neither 0 nor 180 degrees, give the same composite in both orders.
\<close>

theorem transform_swap_counterexample:
  "get_transform (transform_of [Translate 0 0 1, Rotate (0, 0, 0) (0, 0, 1) (pi / 2)])
     = get_transform (transform_of [Rotate (0, 0, 0) (0, 0, 1) (pi / 2), Translate 0 0 1])
   \<and> get_transform (transform_of [Translate 0 0 1, Rotate (0, 0, 0) (0, 0, 1) (pi / 2)])
     = Inr \<lparr>matrix = ((0, - 1, 0), (1, 0, 0), (0, 0, 1)), loc = (0, 0, 1)\<rparr>
   \<and> pi / 2 \<noteq> (0::real) \<and> pi / 2 \<noteq> (pi::real)"
  by (simp add: translate_then_rotate_z rotate_z_then_translate)

end
